theory Spec2Isabelle
  imports Main "HOL-Library.Word" "HOL-Library.Sublist"
begin

section \<open>Host-side core device driver: \<open>artiq/coredevice/comm_generic.py\<close>\<close>

text \<open>
  A shallow embedding of class \<open>CommGeneric\<close>. The object's attributes and the abstract
  byte channel form one record that every method takes and returns; every \<open>raise\<close> of the
  source is an \<open>Inl\<close> result. Python's unbounded integers are \<open>int\<close>; a byte is an
  \<open>8 word\<close>; \<open>bytes\<close> and \<open>bytearray\<close> objects are byte lists.
\<close>

subsection \<open>Message types\<close>

type_synonym byte = "8 word"

datatype H2DMsgType =
    LOG_REQUEST | LOG_CLEAR | IDENT_REQUEST | SWITCH_CLOCK | LOAD_LIBRARY | RUN_KERNEL
  | RPC_REPLY | RPC_EXCEPTION | FLASH_READ_REQUEST | FLASH_WRITE_REQUEST
  | FLASH_ERASE_REQUEST | FLASH_REMOVE_REQUEST

fun h2d_value :: "H2DMsgType \<Rightarrow> int" where
  "h2d_value LOG_REQUEST = 1"
| "h2d_value LOG_CLEAR = 2"
| "h2d_value IDENT_REQUEST = 3"
| "h2d_value SWITCH_CLOCK = 4"
| "h2d_value LOAD_LIBRARY = 5"
| "h2d_value RUN_KERNEL = 6"
| "h2d_value RPC_REPLY = 7"
| "h2d_value RPC_EXCEPTION = 8"
| "h2d_value FLASH_READ_REQUEST = 9"
| "h2d_value FLASH_WRITE_REQUEST = 10"
| "h2d_value FLASH_ERASE_REQUEST = 11"
| "h2d_value FLASH_REMOVE_REQUEST = 12"

datatype D2HMsgType =
    LOG_REPLY | IDENT_REPLY | CLOCK_SWITCH_COMPLETED | CLOCK_SWITCH_FAILED | LOAD_COMPLETED
  | LOAD_FAILED | KERNEL_FINISHED | KERNEL_STARTUP_FAILED | KERNEL_EXCEPTION | RPC_REQUEST
  | FLASH_READ_REPLY | FLASH_OK_REPLY | FLASH_ERROR_REPLY | WATCHDOG_EXPIRED | CLOCK_FAILURE

fun d2h_value :: "D2HMsgType \<Rightarrow> int" where
  "d2h_value LOG_REPLY = 1"
| "d2h_value IDENT_REPLY = 2"
| "d2h_value CLOCK_SWITCH_COMPLETED = 3"
| "d2h_value CLOCK_SWITCH_FAILED = 4"
| "d2h_value LOAD_COMPLETED = 5"
| "d2h_value LOAD_FAILED = 6"
| "d2h_value KERNEL_FINISHED = 7"
| "d2h_value KERNEL_STARTUP_FAILED = 8"
| "d2h_value KERNEL_EXCEPTION = 9"
| "d2h_value RPC_REQUEST = 10"
| "d2h_value FLASH_READ_REPLY = 11"
| "d2h_value FLASH_OK_REPLY = 12"
| "d2h_value FLASH_ERROR_REPLY = 13"
| "d2h_value WATCHDOG_EXPIRED = 14"
| "d2h_value CLOCK_FAILURE = 15"

text \<open>\<open>_D2HMsgType(raw_type)\<close>: the member with that value; \<open>None\<close> stands for the
  \<open>ValueError\<close> the enumeration raises on any other value.\<close>

definition D2HMsgType_of :: "int \<Rightarrow> D2HMsgType option" where
  "D2HMsgType_of raw =
     (if raw = 1 then Some LOG_REPLY
      else if raw = 2 then Some IDENT_REPLY
      else if raw = 3 then Some CLOCK_SWITCH_COMPLETED
      else if raw = 4 then Some CLOCK_SWITCH_FAILED
      else if raw = 5 then Some LOAD_COMPLETED
      else if raw = 6 then Some LOAD_FAILED
      else if raw = 7 then Some KERNEL_FINISHED
      else if raw = 8 then Some KERNEL_STARTUP_FAILED
      else if raw = 9 then Some KERNEL_EXCEPTION
      else if raw = 10 then Some RPC_REQUEST
      else if raw = 11 then Some FLASH_READ_REPLY
      else if raw = 12 then Some FLASH_OK_REPLY
      else if raw = 13 then Some FLASH_ERROR_REPLY
      else if raw = 14 then Some WATCHDOG_EXPIRED
      else if raw = 15 then Some CLOCK_FAILURE
      else None)"

subsection \<open>Python values\<close>

text \<open>
  The dynamically typed values that cross the RPC boundary. A \<open>str\<close> is held as its UTF-8
  encoding, so that \<open>encode("utf-8")\<close> is the identity; a \<open>float\<close> is held as its IEEE-754
  bit pattern. \<open>PyWrapInt v w\<close> is the object \<open>wrapping_int(v, w)\<close> of
  \<open>artiq.language.core\<close>, \<open>PyKeyword\<close> is the named tuple \<open>RPCKeyword\<close>, \<open>PySentinel\<close> is
  \<open>_rpc_sentinel\<close>, \<open>PySetattr\<close> is the function
  \<open>lambda obj, attr, value: setattr(obj, attr, value)\<close>, and \<open>PyObject\<close> is any other host
  object, named by an identifier.
\<close>

datatype pyval =
    PyNone
  | PyBool bool
  | PyInt int
  | PyFloat "64 word"
  | PyFraction int int
  | PyStr "byte list"
  | PyList "pyval list"
  | PyTuple "pyval list"
  | PyRange int int int
  | PyWrapInt int nat
  | PyKeyword "byte list" pyval
  | PySentinel
  | PySetattr
  | PyObject int

text \<open>The text that \<open>expected()\<close> yields in \<open>check\<close> of \<open>_send_rpc_value\<close>.\<close>

datatype expected =
    ExpTupleOf int | ExpNone | ExpBool | ExpInt32 | ExpInt64 | ExpFloat | ExpFraction64
  | ExpStr | ExpList | ExpRange

subsection \<open>Exceptions as values\<close>

text \<open>
  Modelled from the spec: the record \<open>CoreException\<close> of \<open>artiq.coredevice.exceptions\<close>, which
  is not among the sources: a name, a message, a parameter list and a traceback. The
  traceback is the list that \<open>_serve_exception\<close> hands to the constructor: the frames of the
  symbolizer and then the tuple \<open>(filename, line, column, *demangler([function]), None)\<close>. A
  frame is a tuple, held as the list of its items.
\<close>

type_synonym frame = "pyval list"

record core_exception =
  core_name :: "byte list"
  core_message :: "byte list"
  core_param :: "int list"
  core_traceback :: "frame list"

text \<open>
  What \<open>_serve_rpc\<close> looks at in an exception object \<open>exn\<close> that a service raised:
  whether it is an instance of \<open>Exception\<close>, its attribute \<open>artiq_core_exception\<close> if it has
  one, its type (an object, with \<open>__name__\<close>, \<open>__module__\<close> and \<open>__qualname__\<close>), whether that
  type is one of \<open>ZeroDivisionError\<close>, \<open>ValueError\<close>, \<open>IndexError\<close>, whether it has the
  attribute \<open>artiq_builtin\<close>, \<open>str(exn)\<close>, and the file, line and function of the entries of
  \<open>traceback.extract_tb(exn.__traceback__, 2)\<close>.
\<close>

record pyexn =
  exn_is_exception :: bool
  exn_core :: "core_exception option"
  exn_type :: pyval
  exn_type_name :: "byte list"
  exn_type_module :: "byte list"
  exn_type_qualname :: "byte list"
  exn_type_in_builtins :: bool
  exn_artiq_builtin :: bool
  exn_str :: "byte list"
  exn_tb :: "(byte list \<times> int \<times> byte list) list"

subsection \<open>Errors\<close>

text \<open>One constructor per exception the module can raise. \<open>ChannelError\<close> is the failure
  of the abstract \<open>read\<close> (fewer bytes available than asked for); \<open>StructError\<close> is
  \<open>struct.error\<close>. \<open>RPCReturnValueError value expected function root\<close> carries the four
  fields that the message of the source is formatted from.\<close>

datatype error =
    ChannelError
  | StructError
  | ReadUnderrun int
  | ConnectionClosed
  | UnknownMsgType int
  | ReadOverrunHeader int
  | ReadOverrun int int "D2HMsgType option"
  | IncorrectReply "D2HMsgType option" D2HMsgType
  | UnsupportedDevice "byte list"
  | UnicodeDecodeError
  | FlashFull
  | AttributeError
  | IndexError
  | RPCReturnValueError pyval expected pyval pyval
  | UnknownRPCTag byte
  | ZeroDivisionError
  | TypeError
  | ValueError
  | AssertionError
  | KeyError
  | Propagated pyexn

subsection \<open>What lies outside the module\<close>

text \<open>
  The collaborators that the module imports or is handed: the version string
  \<open>artiq.__version__\<close>; whether \<open>bytes.decode("utf-8")\<close> accepts a byte string; the two
  operations of the embedding map; the call \<open>service(*args, **kwargs)\<close> of a host object,
  which returns a value or raises; the exception object that Python builds when the module
  itself raises inside a \<open>try\<close> block; and \<open>operator.index\<close>, the integer that an object
  stands for where Python needs one.
\<close>

record externals =
  software_version :: "byte list"
  utf8_ok :: "byte list \<Rightarrow> bool"
  retrieve_object :: "int \<Rightarrow> error + pyval"
  store_object :: "pyval \<Rightarrow> int"
  call :: "pyval \<Rightarrow> pyval list \<Rightarrow> (byte list \<rightharpoonup> pyval) \<Rightarrow> pyexn + pyval"
  reify :: "error \<Rightarrow> pyexn"
  index :: "pyval \<Rightarrow> error + int"

text \<open>\<open>data.decode("utf-8")\<close>; a \<open>str\<close> is held as its UTF-8 encoding.\<close>

definition decode_utf8 :: "externals \<Rightarrow> byte list \<Rightarrow> error + byte list" where
  "decode_utf8 ext d = (if utf8_ok ext d then Inr d else Inl UnicodeDecodeError)"

subsection \<open>\<open>struct.pack\<close> and \<open>struct.unpack\<close>\<close>

text \<open>Big-endian bytes of the low \<open>8 * n\<close> bits of an integer (two's complement for a
  negative one), most significant byte first.\<close>

fun be_bytes :: "nat \<Rightarrow> int \<Rightarrow> byte list" where
  "be_bytes 0 v = []"
| "be_bytes (Suc n) v = be_bytes n (v div 256) @ [word_of_int v]"

definition be_uint :: "byte list \<Rightarrow> int" where
  "be_uint bs = foldl (\<lambda>a b. a * 256 + uint b) 0 bs"

definition to_signed :: "nat \<Rightarrow> int \<Rightarrow> int" where
  "to_signed bits u = (if u \<ge> 2 ^ (bits - 1) then u - 2 ^ bits else u)"

definition pack_B :: "int \<Rightarrow> error + byte list" where
  "pack_B v = (if 0 \<le> v \<and> v \<le> 255 then Inr (be_bytes 1 v) else Inl StructError)"

definition pack_l :: "int \<Rightarrow> error + byte list" where
  "pack_l v = (if - (2 ^ 31) \<le> v \<and> v \<le> 2 ^ 31 - 1 then Inr (be_bytes 4 v) else Inl StructError)"

definition pack_q :: "int \<Rightarrow> error + byte list" where
  "pack_q v = (if - (2 ^ 63) \<le> v \<and> v \<le> 2 ^ 63 - 1 then Inr (be_bytes 8 v) else Inl StructError)"

definition unpack_B :: "byte list \<Rightarrow> error + int" where
  "unpack_B d = (if length d = 1 then Inr (be_uint d) else Inl StructError)"

definition unpack_l :: "byte list \<Rightarrow> error + int" where
  "unpack_l d = (if length d = 4 then Inr (to_signed 32 (be_uint d)) else Inl StructError)"

definition unpack_q :: "byte list \<Rightarrow> error + int" where
  "unpack_q d = (if length d = 8 then Inr (to_signed 64 (be_uint d)) else Inl StructError)"

subsection \<open>The driver object and its channel\<close>

text \<open>
  \<open>read_type\<close>, \<open>read_length\<close>, \<open>write_type\<close> and \<open>write_buffer\<close> are the attributes
  \<open>_read_type\<close>, \<open>_read_length\<close>, \<open>_write_type\<close> and \<open>_write_buffer\<close>. The channel that a
  subclass supplies is \<open>chan_in\<close>, the bytes the device will deliver, and \<open>chan_out\<close>, the
  bytes written so far. \<open>warnings\<close> collects the arguments of \<open>logger.warning\<close>.
\<close>

record comm =
  read_type :: "D2HMsgType option"
  read_length :: int
  write_type :: "H2DMsgType option"
  write_buffer :: "byte list list"
  chan_in :: "byte list"
  chan_out :: "byte list"
  warnings :: "(byte list \<times> byte list) list"

text \<open>\<open>__init__\<close>, on a channel that will deliver \<open>inp\<close>.\<close>

definition init :: "byte list \<Rightarrow> comm" where
  "init inp = \<lparr> read_type = None, read_length = 0, write_type = None, write_buffer = [],
               chan_in = inp, chan_out = [], warnings = [] \<rparr>"

text \<open>\<open>read(length)\<close> returns exactly \<open>length\<close> bytes or fails; \<open>write(data)\<close> appends to
  the output. \<open>open()\<close> does nothing on an open channel and is left out.\<close>

definition chan_read :: "int \<Rightarrow> comm \<Rightarrow> error + (byte list \<times> comm)" where
  "chan_read n s =
     (if n < 0 \<or> int (length (chan_in s)) < n then Inl ChannelError
      else Inr (take (nat n) (chan_in s), s\<lparr>chan_in := drop (nat n) (chan_in s)\<rparr>))"

definition chan_write :: "byte list \<Rightarrow> comm \<Rightarrow> comm" where
  "chan_write d s = s\<lparr>chan_out := chan_out s @ d\<rparr>"

subsection \<open>Reader interface\<close>

text \<open>The loop of \<open>_read_header\<close> that waits for the synchronization sequence.\<close>

function wait_sync :: "nat \<Rightarrow> comm \<Rightarrow> error + comm" where
  "wait_sync sync_count s =
     (if sync_count < 4 then
        (case chan_read 1 s of
           Inl e \<Rightarrow> Inl e
         | Inr (d, s') \<Rightarrow>
             (case unpack_B d of
                Inl e \<Rightarrow> Inl e
              | Inr sync_byte \<Rightarrow>
                  if sync_byte = 0x5a then wait_sync (sync_count + 1) s'
                  else wait_sync 0 s'))
      else Inr s)"
  by pat_completeness auto
termination
  by (relation "measure (\<lambda>(c, s). length (chan_in s))")
     (auto simp: chan_read_def split: if_splits)

declare wait_sync.simps [simp del]

definition read_header :: "comm \<Rightarrow> error + comm" where
  "read_header s =
     (if read_length s > 0 then Inl (ReadUnderrun (read_length s))
      else
        case wait_sync 0 s of
          Inl e \<Rightarrow> Inl e
        | Inr s1 \<Rightarrow>
        (case chan_read 4 s1 of
          Inl e \<Rightarrow> Inl e
        | Inr (d, s2) \<Rightarrow>
        (case unpack_l d of
          Inl e \<Rightarrow> Inl e
        | Inr len \<Rightarrow>
            let s3 = s2\<lparr>read_length := len\<rparr> in
            if read_length s3 = 0 then Inl ConnectionClosed
            else
              (case chan_read 1 s3 of
                Inl e \<Rightarrow> Inl e
              | Inr (d', s4) \<Rightarrow>
              (case unpack_B d' of
                Inl e \<Rightarrow> Inl e
              | Inr raw_type \<Rightarrow>
              (case D2HMsgType_of raw_type of
                None \<Rightarrow> Inl (UnknownMsgType raw_type)
              | Some ty \<Rightarrow>
                  let s5 = s4\<lparr>read_type := Some ty\<rparr> in
                  if read_length s5 < 9 then Inl (ReadOverrunHeader (read_length s5))
                  else Inr (s5\<lparr>read_length := read_length s5 - 9\<rparr>)))))))"

definition read_expect :: "D2HMsgType \<Rightarrow> comm \<Rightarrow> error + comm" where
  "read_expect ty s =
     (if read_type s \<noteq> Some ty then Inl (IncorrectReply (read_type s) ty) else Inr s)"

definition read_empty :: "D2HMsgType \<Rightarrow> comm \<Rightarrow> error + comm" where
  "read_empty ty s = (case read_header s of Inl e \<Rightarrow> Inl e | Inr s' \<Rightarrow> read_expect ty s')"

definition read_chunk :: "int \<Rightarrow> comm \<Rightarrow> error + (byte list \<times> comm)" where
  "read_chunk len s =
     (if read_length s < len then Inl (ReadOverrun len (read_length s) (read_type s))
      else chan_read len (s\<lparr>read_length := read_length s - len\<rparr>))"

subsection \<open>Writer interface\<close>

definition write_header :: "H2DMsgType \<Rightarrow> comm \<Rightarrow> comm" where
  "write_header ty s = s\<lparr>write_type := Some ty, write_buffer := []\<rparr>"

text \<open>\<open>struct.pack(">llB", 0x5a5a5a5a, 9 + length, self._write_type.value)\<close>; a builder
  whose \<open>_write_type\<close> is still \<open>None\<close> has no \<open>value\<close> attribute.\<close>

definition pack_llB :: "int \<Rightarrow> int \<Rightarrow> int \<Rightarrow> error + byte list" where
  "pack_llB a b c =
     (case pack_l a of Inl e \<Rightarrow> Inl e | Inr x \<Rightarrow>
      (case pack_l b of Inl e \<Rightarrow> Inl e | Inr y \<Rightarrow>
       (case pack_B c of Inl e \<Rightarrow> Inl e | Inr z \<Rightarrow> Inr (x @ y @ z))))"

definition write_flush :: "comm \<Rightarrow> error + comm" where
  "write_flush s =
     (let len = sum_list (map (\<lambda>chunk. int (length chunk)) (write_buffer s)) in
      case write_type s of
        None \<Rightarrow> Inl AttributeError
      | Some ty \<Rightarrow>
          (case pack_llB 0x5a5a5a5a (9 + len) (h2d_value ty) of
             Inl e \<Rightarrow> Inl e
           | Inr hdr \<Rightarrow> Inr (foldl (\<lambda>s' chunk. chan_write chunk s') (chan_write hdr s) (write_buffer s))))"

definition write_empty :: "H2DMsgType \<Rightarrow> comm \<Rightarrow> error + comm" where
  "write_empty ty s = write_flush (write_header ty s)"

definition write_chunk :: "byte list \<Rightarrow> comm \<Rightarrow> comm" where
  "write_chunk chunk s = s\<lparr>write_buffer := write_buffer s @ [chunk]\<rparr>"

definition write_int8 :: "int \<Rightarrow> comm \<Rightarrow> error + comm" where
  "write_int8 v s =
     (case pack_B v of Inl e \<Rightarrow> Inl e | Inr d \<Rightarrow> Inr (s\<lparr>write_buffer := write_buffer s @ [d]\<rparr>))"

definition write_int32 :: "int \<Rightarrow> comm \<Rightarrow> error + comm" where
  "write_int32 v s =
     (case pack_l v of Inl e \<Rightarrow> Inl e | Inr d \<Rightarrow> Inr (s\<lparr>write_buffer := write_buffer s @ [d]\<rparr>))"

definition write_int64 :: "int \<Rightarrow> comm \<Rightarrow> error + comm" where
  "write_int64 v s =
     (case pack_q v of Inl e \<Rightarrow> Inl e | Inr d \<Rightarrow> Inr (s\<lparr>write_buffer := write_buffer s @ [d]\<rparr>))"

text \<open>\<open>struct.pack(">d", value)\<close> of a float is the eight bytes of its bit pattern.\<close>

definition write_float64 :: "64 word \<Rightarrow> comm \<Rightarrow> comm" where
  "write_float64 v s = s\<lparr>write_buffer := write_buffer s @ [be_bytes 8 (uint v)]\<rparr>"

definition write_bytes :: "byte list \<Rightarrow> comm \<Rightarrow> error + comm" where
  "write_bytes v s =
     (case write_int32 (int (length v)) s of
        Inl e \<Rightarrow> Inl e
      | Inr s1 \<Rightarrow> Inr (s1\<lparr>write_buffer := write_buffer s1 @ [v]\<rparr>))"

definition write_string :: "byte list \<Rightarrow> comm \<Rightarrow> error + comm" where
  "write_string v s = write_bytes (v @ [0]) s"

subsection \<open>Sending RPC values\<close>

text \<open>\<open>tags.pop(0)\<close> on a \<open>bytearray\<close>: the first byte, as an \<open>int\<close>, and the array without it;
  \<open>IndexError\<close> on an empty array.\<close>

definition pop0 :: "byte list \<Rightarrow> error + (byte \<times> byte list)" where
  "pop0 tags = (case tags of [] \<Rightarrow> Inl IndexError | t # ts \<Rightarrow> Inr (t, ts))"

text \<open>\<open>chr(b) == c\<close> for a byte \<open>b\<close> and a one-character string \<open>c\<close>.\<close>

definition chr_eq :: "byte \<Rightarrow> char \<Rightarrow> bool" where
  "chr_eq b c = (b = of_char c)"

text \<open>
  \<open>_skip_rpc_value\<close> compares the popped element itself, without \<open>chr\<close>, to the strings
  \<open>"t"\<close>, \<open>"l"\<close> and \<open>"r"\<close>. Every caller passes a \<open>bytearray\<close>, whose elements are \<open>int\<close>s, and
  in Python no \<open>int\<close> is equal to a \<open>str\<close>.
\<close>

definition int_eq_str :: "byte \<Rightarrow> string \<Rightarrow> bool" where
  "int_eq_str b c = False"

function skip_rpc_value :: "byte list \<Rightarrow> error + byte list"
  and skip_rpc_values :: "nat \<Rightarrow> byte list \<Rightarrow> error + byte list"
where
  "skip_rpc_value tags0 =
     (case pop0 tags0 of
        Inl e \<Rightarrow> Inl e
      | Inr (tag, tags) \<Rightarrow>
          if int_eq_str tag ''t'' then
            (case pop0 tags of
               Inl e \<Rightarrow> Inl e
             | Inr (len, tags1) \<Rightarrow> skip_rpc_values (unat len) tags1)
          else if int_eq_str tag ''l'' then skip_rpc_value tags
          else if int_eq_str tag ''r'' then skip_rpc_value tags
          else Inr tags)"
| "skip_rpc_values 0 tags = Inr tags"
| "skip_rpc_values (Suc n) tags =
     (case skip_rpc_value tags of Inl e \<Rightarrow> Inl e | Inr tags1 \<Rightarrow> skip_rpc_values n tags1)"
  by pat_completeness auto
termination
  by (relation "measure (\<lambda>x. case x of Inl tags \<Rightarrow> 0 | Inr (n, tags) \<Rightarrow> n)")
     (auto simp: int_eq_str_def)

text \<open>
  The words of the specification for the skip pass: a traversal of the tags alone that
  advances the tag stream past one sub-grammar, in which \<open>t\<close>, \<open>l\<close> and \<open>r\<close> descend and the
  other tags have no sub-tags. \<open>spec_skip_n n\<close> advances past \<open>n\<close> sub-grammars in a row: a
  \<open>t\<close> with its count \<open>k\<close> puts \<open>k\<close> sub-grammars in the place of one, an \<open>l\<close> or an \<open>r\<close>
  puts its element grammar there, and any other tag is a whole sub-grammar.
\<close>

fun spec_skip_n :: "nat \<Rightarrow> byte list \<Rightarrow> error + byte list" where
  "spec_skip_n 0 tags = Inr tags"
| "spec_skip_n (Suc n) [] = Inl IndexError"
| "spec_skip_n (Suc n) (tag # tags) =
     (if chr_eq tag CHR ''t'' then
        (case tags of
           [] \<Rightarrow> Inl IndexError
         | len # tags1 \<Rightarrow> spec_skip_n (unat len + n) tags1)
      else if chr_eq tag CHR ''l'' \<or> chr_eq tag CHR ''r'' then spec_skip_n (Suc n) tags
      else spec_skip_n n tags)"

definition spec_skip :: "byte list \<Rightarrow> error + byte list" where
  "spec_skip tags = spec_skip_n 1 tags"

text \<open>\<open>isinstance(value, int)\<close> holds of \<open>int\<close> and of its subclass \<open>bool\<close>;
  \<open>isinstance(value, tuple)\<close> holds of tuples and of the named tuple \<open>RPCKeyword\<close>.\<close>

fun as_int :: "pyval \<Rightarrow> int option" where
  "as_int (PyInt v) = Some v"
| "as_int (PyBool b) = Some (if b then 1 else 0)"
| "as_int _ = None"

fun as_tuple :: "pyval \<Rightarrow> pyval list option" where
  "as_tuple (PyTuple elts) = Some elts"
| "as_tuple (PyKeyword name v) = Some [PyStr name, v]"
| "as_tuple _ = None"

text \<open>The local function \<open>check\<close>.\<close>

definition check :: "bool \<Rightarrow> expected \<Rightarrow> pyval \<Rightarrow> pyval \<Rightarrow> pyval \<Rightarrow> error + unit" where
  "check cond exp v function root =
     (if \<not> cond then Inl (RPCReturnValueError v exp function root) else Inr ())"

text \<open>The number of values in a value, counted so that it falls at every recursive call of
  \<open>_send_rpc_value\<close>.\<close>

fun nodes :: "pyval \<Rightarrow> nat" where
  "nodes (PyList elts) = Suc (sum_list (map nodes elts))"
| "nodes (PyTuple elts) = Suc (sum_list (map nodes elts))"
| "nodes (PyKeyword name v) = Suc (Suc (nodes v))"
| "nodes (PyRange a b c) = 2"
| "nodes _ = 1"

lemma nodes_pos: "0 < nodes v"
  by (cases v) simp_all

text \<open>
  \<open>_send_rpc_value(tags, value, root, function)\<close>. The \<open>bytearray\<close> \<open>tags\<close> is shared with
  the caller and changed in place by \<open>pop\<close>, so the function returns its final contents along
  with the driver. \<open>send_tuple_elts\<close> is the loop of the \<open>"t"\<close> branch, which passes the
  caller's array on; \<open>send_list_elts\<close> is the loop of the \<open>"l"\<close> branch, which passes a fresh
  copy for every element. In the \<open>"r"\<close> branch the last statement \<open>tags = tags_copy\<close> rebinds
  the local name only: the caller's array is as the \<open>pop\<close> of the tag left it.
\<close>

function send_rpc_value :: "byte list \<Rightarrow> pyval \<Rightarrow> pyval \<Rightarrow> pyval \<Rightarrow> comm \<Rightarrow> error + (byte list \<times> comm)"
  and send_tuple_elts :: "byte list \<Rightarrow> pyval list \<Rightarrow> pyval \<Rightarrow> pyval \<Rightarrow> comm \<Rightarrow> error + (byte list \<times> comm)"
  and send_list_elts :: "byte list \<Rightarrow> pyval list \<Rightarrow> pyval \<Rightarrow> pyval \<Rightarrow> comm \<Rightarrow> error + comm"
where
  "send_rpc_value tags0 v root function s =
     (case pop0 tags0 of
        Inl e \<Rightarrow> Inl e
      | Inr (tag, tags) \<Rightarrow>
          if chr_eq tag CHR ''t'' then
            (case pop0 tags of
               Inl e \<Rightarrow> Inl e
             | Inr (len, tags1) \<Rightarrow>
                 (case as_tuple v of
                    None \<Rightarrow> Inl (RPCReturnValueError v (ExpTupleOf (uint len)) function root)
                  | Some elts \<Rightarrow>
                      if uint len \<noteq> int (length elts)
                      then Inl (RPCReturnValueError v (ExpTupleOf (uint len)) function root)
                      else send_tuple_elts tags1 elts root function s))
          else if chr_eq tag CHR ''n'' then
            (case check (v = PyNone) ExpNone v function root of
               Inl e \<Rightarrow> Inl e
             | Inr _ \<Rightarrow> Inr (tags, s))
          else if chr_eq tag CHR ''b'' then
            (case v of
               PyBool b \<Rightarrow>
                 (case write_int8 (if b then 1 else 0) s of Inl e \<Rightarrow> Inl e | Inr s1 \<Rightarrow> Inr (tags, s1))
             | _ \<Rightarrow> Inl (RPCReturnValueError v ExpBool function root))
          else if chr_eq tag CHR ''i'' then
            (case as_int v of
               None \<Rightarrow> Inl (RPCReturnValueError v ExpInt32 function root)
             | Some n \<Rightarrow>
                 (case check (- (2 ^ 31) < n \<and> n < 2 ^ 31 - 1) ExpInt32 v function root of
                    Inl e \<Rightarrow> Inl e
                  | Inr _ \<Rightarrow>
                      (case write_int32 n s of Inl e \<Rightarrow> Inl e | Inr s1 \<Rightarrow> Inr (tags, s1))))
          else if chr_eq tag CHR ''I'' then
            (case as_int v of
               None \<Rightarrow> Inl (RPCReturnValueError v ExpInt64 function root)
             | Some n \<Rightarrow>
                 (case check (- (2 ^ 63) < n \<and> n < 2 ^ 63 - 1) ExpInt64 v function root of
                    Inl e \<Rightarrow> Inl e
                  | Inr _ \<Rightarrow>
                      (case write_int64 n s of Inl e \<Rightarrow> Inl e | Inr s1 \<Rightarrow> Inr (tags, s1))))
          else if chr_eq tag CHR ''f'' then
            (case v of
               PyFloat x \<Rightarrow> Inr (tags, write_float64 x s)
             | _ \<Rightarrow> Inl (RPCReturnValueError v ExpFloat function root))
          else if chr_eq tag CHR ''F'' then
            (case v of
               PyFraction numerator denominator \<Rightarrow>
                 (case check ((- (2 ^ 63) < numerator \<and> numerator < 2 ^ 63 - 1) \<and>
                              (- (2 ^ 63) < denominator \<and> denominator < 2 ^ 63 - 1))
                         ExpFraction64 v function root of
                    Inl e \<Rightarrow> Inl e
                  | Inr _ \<Rightarrow>
                      (case write_int64 numerator s of
                         Inl e \<Rightarrow> Inl e
                       | Inr s1 \<Rightarrow>
                           (case write_int64 denominator s1 of
                              Inl e \<Rightarrow> Inl e
                            | Inr s2 \<Rightarrow> Inr (tags, s2))))
             | _ \<Rightarrow> Inl (RPCReturnValueError v ExpFraction64 function root))
          else if chr_eq tag CHR ''s'' then
            (case v of
               PyStr str \<Rightarrow>
                 (case check (0 \<notin> set str) ExpStr v function root of
                    Inl e \<Rightarrow> Inl e
                  | Inr _ \<Rightarrow>
                      (case write_string str s of Inl e \<Rightarrow> Inl e | Inr s1 \<Rightarrow> Inr (tags, s1)))
             | _ \<Rightarrow> Inl (RPCReturnValueError v ExpStr function root))
          else if chr_eq tag CHR ''l'' then
            (case v of
               PyList elts \<Rightarrow>
                 (case write_int32 (int (length elts)) s of
                    Inl e \<Rightarrow> Inl e
                  | Inr s1 \<Rightarrow>
                      (case send_list_elts tags elts root function s1 of
                         Inl e \<Rightarrow> Inl e
                       | Inr s2 \<Rightarrow>
                           (case skip_rpc_value tags of
                              Inl e \<Rightarrow> Inl e
                            | Inr tags1 \<Rightarrow> Inr (tags1, s2))))
             | _ \<Rightarrow> Inl (RPCReturnValueError v ExpList function root))
          else if chr_eq tag CHR ''r'' then
            (case v of
               PyRange start stop step \<Rightarrow>
                 (case send_rpc_value tags (PyInt start) root function s of
                    Inl e \<Rightarrow> Inl e
                  | Inr (tags_copy1, s1) \<Rightarrow>
                      (case send_rpc_value tags (PyInt stop) root function s1 of
                         Inl e \<Rightarrow> Inl e
                       | Inr (tags_copy2, s2) \<Rightarrow>
                           (case send_rpc_value tags (PyInt step) root function s2 of
                              Inl e \<Rightarrow> Inl e
                            | Inr (tags_copy3, s3) \<Rightarrow> Inr (tags, s3))))
             | _ \<Rightarrow> Inl (RPCReturnValueError v ExpRange function root))
          else Inl (UnknownRPCTag tag))"
| "send_tuple_elts tags [] root function s = Inr (tags, s)"
| "send_tuple_elts tags (elt # elts) root function s =
     (case send_rpc_value tags elt root function s of
        Inl e \<Rightarrow> Inl e
      | Inr (tags1, s1) \<Rightarrow> send_tuple_elts tags1 elts root function s1)"
| "send_list_elts tags [] root function s = Inr s"
| "send_list_elts tags (elt # elts) root function s =
     (case send_rpc_value tags elt root function s of
        Inl e \<Rightarrow> Inl e
      | Inr (tags_copy, s1) \<Rightarrow> send_list_elts tags elts root function s1)"
  by pat_completeness auto
termination
  by (relation "measure (\<lambda>x. case x of
          Inl (tags, v, _) \<Rightarrow> 2 * nodes v
        | Inr (Inl (tags, elts, _)) \<Rightarrow> 2 * sum_list (map nodes elts) + 1
        | Inr (Inr (tags, elts, _)) \<Rightarrow> 2 * sum_list (map nodes elts) + 1)")
     (auto elim!: as_tuple.elims simp: nodes_pos)

declare send_rpc_value.simps [simp del]

subsection \<open>Receiving RPC values\<close>

definition read_int8 :: "comm \<Rightarrow> error + (int \<times> comm)" where
  "read_int8 s =
     (case read_chunk 1 s of
        Inl e \<Rightarrow> Inl e
      | Inr (d, s1) \<Rightarrow> (case unpack_B d of Inl e \<Rightarrow> Inl e | Inr v \<Rightarrow> Inr (v, s1)))"

definition read_int32 :: "comm \<Rightarrow> error + (int \<times> comm)" where
  "read_int32 s =
     (case read_chunk 4 s of
        Inl e \<Rightarrow> Inl e
      | Inr (d, s1) \<Rightarrow> (case unpack_l d of Inl e \<Rightarrow> Inl e | Inr v \<Rightarrow> Inr (v, s1)))"

definition read_int64 :: "comm \<Rightarrow> error + (int \<times> comm)" where
  "read_int64 s =
     (case read_chunk 8 s of
        Inl e \<Rightarrow> Inl e
      | Inr (d, s1) \<Rightarrow> (case unpack_q d of Inl e \<Rightarrow> Inl e | Inr v \<Rightarrow> Inr (v, s1)))"

text \<open>\<open>struct.unpack(">d", _)\<close>: the float whose bit pattern the eight bytes are.\<close>

definition read_float64 :: "comm \<Rightarrow> error + (64 word \<times> comm)" where
  "read_float64 s =
     (case read_chunk 8 s of
        Inl e \<Rightarrow> Inl e
      | Inr (d, s1) \<Rightarrow>
          if length d = 8 then Inr (word_of_int (be_uint d), s1) else Inl StructError)"

definition read_bytes :: "comm \<Rightarrow> error + (byte list \<times> comm)" where
  "read_bytes s = (case read_int32 s of Inl e \<Rightarrow> Inl e | Inr (n, s1) \<Rightarrow> read_chunk n s1)"

text \<open>\<open>self._read_bytes()[:-1].decode("utf-8")\<close>.\<close>

definition read_string :: "externals \<Rightarrow> comm \<Rightarrow> error + (byte list \<times> comm)" where
  "read_string ext s =
     (case read_bytes s of
        Inl e \<Rightarrow> Inl e
      | Inr (b, s1) \<Rightarrow>
          (case decode_utf8 ext (butlast b) of Inl e \<Rightarrow> Inl e | Inr str \<Rightarrow> Inr (str, s1)))"

text \<open>\<open>chr(n) == c\<close> for the integer \<open>n\<close> that \<open>_read_int8\<close> returned.\<close>

definition chr_is :: "int \<Rightarrow> char \<Rightarrow> bool" where
  "chr_is n c = (n = of_char c)"

text \<open>\<open>Fraction(numerator, denominator)\<close> of the standard library: in lowest terms, with a
  positive denominator; a zero denominator raises.\<close>

definition py_Fraction :: "int \<Rightarrow> int \<Rightarrow> error + pyval" where
  "py_Fraction numerator denominator =
     (if denominator = 0 then Inl ZeroDivisionError
      else let g = (if denominator < 0 then - gcd numerator denominator
                    else gcd numerator denominator)
           in Inr (PyFraction (numerator div g) (denominator div g)))"

text \<open>\<open>range(start, stop, step)\<close>: each argument is taken through \<open>__index__\<close>, and a zero
  step raises.\<close>

definition py_range :: "externals \<Rightarrow> pyval \<Rightarrow> pyval \<Rightarrow> pyval \<Rightarrow> error + pyval" where
  "py_range ext start stop step =
     (case index ext start of Inl e \<Rightarrow> Inl e | Inr a \<Rightarrow>
      (case index ext stop of Inl e \<Rightarrow> Inl e | Inr b \<Rightarrow>
       (case index ext step of Inl e \<Rightarrow> Inl e | Inr c \<Rightarrow>
          if c = 0 then Inl ValueError else Inr (PyRange a b c))))"

lemma chan_read_length:
  "chan_read n s = Inr (d, s1) \<Longrightarrow> length (chan_in s1) + nat n = length (chan_in s) \<and> 0 \<le> n \<and> chan_out s1 = chan_out s"
  by (auto simp: chan_read_def split: if_splits)

lemma read_chunk_length:
  "read_chunk n s = Inr (d, s1) \<Longrightarrow> length (chan_in s1) + nat n = length (chan_in s) \<and> 0 \<le> n \<and> chan_out s1 = chan_out s"
  by (auto simp: read_chunk_def dest: chan_read_length split: if_splits)

lemma read_int8_length: "read_int8 s = Inr (v, s1) \<Longrightarrow> (length (chan_in s1) < length (chan_in s) \<and> chan_out s1 = chan_out s)"
  by (auto simp: read_int8_def dest!: read_chunk_length split: sum.splits)

lemma read_int32_length: "read_int32 s = Inr (v, s1) \<Longrightarrow> (length (chan_in s1) < length (chan_in s) \<and> chan_out s1 = chan_out s)"
  by (auto simp: read_int32_def dest!: read_chunk_length split: sum.splits)

lemma read_int64_length: "read_int64 s = Inr (v, s1) \<Longrightarrow> (length (chan_in s1) < length (chan_in s) \<and> chan_out s1 = chan_out s)"
  by (auto simp: read_int64_def dest!: read_chunk_length split: sum.splits)

lemma read_float64_length:
  "read_float64 s = Inr (v, s1) \<Longrightarrow> (length (chan_in s1) < length (chan_in s) \<and> chan_out s1 = chan_out s)"
  by (auto simp: read_float64_def dest!: read_chunk_length split: sum.splits if_splits)

lemma read_bytes_length: "read_bytes s = Inr (v, s1) \<Longrightarrow> (length (chan_in s1) < length (chan_in s) \<and> chan_out s1 = chan_out s)"
  by (auto simp: read_bytes_def dest!: read_chunk_length read_int32_length split: sum.splits)

lemma read_string_length:
  "read_string ext s = Inr (v, s1) \<Longrightarrow> (length (chan_in s1) < length (chan_in s) \<and> chan_out s1 = chan_out s)"
  by (auto simp: read_string_def dest!: read_bytes_length split: sum.splits)

text \<open>
  \<open>_receive_rpc_value(embedding_map)\<close>; \<open>receive_rpc_values\<close> is the generator that the
  \<open>"t"\<close> and \<open>"l"\<close> branches run \<open>length\<close> times (\<open>range\<close> of a negative length is empty).
\<close>

function (domintros)
  receive_rpc_value :: "externals \<Rightarrow> comm \<Rightarrow> error + (pyval \<times> comm)"
  and receive_rpc_values :: "externals \<Rightarrow> nat \<Rightarrow> comm \<Rightarrow> error + (pyval list \<times> comm)"
where
  "receive_rpc_value ext s =
     (case read_int8 s of
        Inl e \<Rightarrow> Inl e
      | Inr (tag, s1) \<Rightarrow>
          if tag = 0 then Inr (PySentinel, s1)
          else if chr_is tag CHR ''t'' then
            (case read_int8 s1 of
               Inl e \<Rightarrow> Inl e
             | Inr (len, s2) \<Rightarrow>
                 (case receive_rpc_values ext (nat len) s2 of
                    Inl e \<Rightarrow> Inl e
                  | Inr (elts, s3) \<Rightarrow> Inr (PyTuple elts, s3)))
          else if chr_is tag CHR ''n'' then Inr (PyNone, s1)
          else if chr_is tag CHR ''b'' then
            (case read_int8 s1 of Inl e \<Rightarrow> Inl e | Inr (b, s2) \<Rightarrow> Inr (PyBool (b \<noteq> 0), s2))
          else if chr_is tag CHR ''i'' then
            (case read_int32 s1 of Inl e \<Rightarrow> Inl e | Inr (n, s2) \<Rightarrow> Inr (PyWrapInt n 32, s2))
          else if chr_is tag CHR ''I'' then
            (case read_int64 s1 of Inl e \<Rightarrow> Inl e | Inr (n, s2) \<Rightarrow> Inr (PyWrapInt n 64, s2))
          else if chr_is tag CHR ''f'' then
            (case read_float64 s1 of Inl e \<Rightarrow> Inl e | Inr (x, s2) \<Rightarrow> Inr (PyFloat x, s2))
          else if chr_is tag CHR ''F'' then
            (case read_int64 s1 of
               Inl e \<Rightarrow> Inl e
             | Inr (numerator, s2) \<Rightarrow>
                 (case read_int64 s2 of
                    Inl e \<Rightarrow> Inl e
                  | Inr (denominator, s3) \<Rightarrow>
                      (case py_Fraction numerator denominator of
                         Inl e \<Rightarrow> Inl e
                       | Inr q \<Rightarrow> Inr (q, s3))))
          else if chr_is tag CHR ''s'' then
            (case read_string ext s1 of Inl e \<Rightarrow> Inl e | Inr (str, s2) \<Rightarrow> Inr (PyStr str, s2))
          else if chr_is tag CHR ''l'' then
            (case read_int32 s1 of
               Inl e \<Rightarrow> Inl e
             | Inr (len, s2) \<Rightarrow>
                 (case receive_rpc_values ext (nat len) s2 of
                    Inl e \<Rightarrow> Inl e
                  | Inr (elts, s3) \<Rightarrow> Inr (PyList elts, s3)))
          else if chr_is tag CHR ''r'' then
            (case receive_rpc_value ext s1 of
               Inl e \<Rightarrow> Inl e
             | Inr (start, s2) \<Rightarrow>
                 (case receive_rpc_value ext s2 of
                    Inl e \<Rightarrow> Inl e
                  | Inr (stop, s3) \<Rightarrow>
                      (case receive_rpc_value ext s3 of
                         Inl e \<Rightarrow> Inl e
                       | Inr (step, s4) \<Rightarrow>
                           (case py_range ext start stop step of
                              Inl e \<Rightarrow> Inl e
                            | Inr r \<Rightarrow> Inr (r, s4)))))
          else if chr_is tag CHR ''k'' then
            (case read_string ext s1 of
               Inl e \<Rightarrow> Inl e
             | Inr (name, s2) \<Rightarrow>
                 (case receive_rpc_value ext s2 of
                    Inl e \<Rightarrow> Inl e
                  | Inr (v, s3) \<Rightarrow> Inr (PyKeyword name v, s3)))
          else if chr_is tag CHR ''O'' then
            (case read_int32 s1 of
               Inl e \<Rightarrow> Inl e
             | Inr (obj_id, s2) \<Rightarrow>
                 (case retrieve_object ext obj_id of Inl e \<Rightarrow> Inl e | Inr obj \<Rightarrow> Inr (obj, s2)))
          else Inl (UnknownRPCTag (word_of_int tag)))"
| "receive_rpc_values ext 0 s = Inr ([], s)"
| "receive_rpc_values ext (Suc n) s =
     (case receive_rpc_value ext s of
        Inl e \<Rightarrow> Inl e
      | Inr (v, s1) \<Rightarrow>
          (case receive_rpc_values ext n s1 of
             Inl e \<Rightarrow> Inl e
           | Inr (elts, s2) \<Rightarrow> Inr (v # elts, s2)))"
  by pat_completeness auto

lemma receive_shrinks:
  "receive_rpc_value_receive_rpc_values_dom (Inl (ext, s)) \<Longrightarrow>
     receive_rpc_value ext s = Inr (v, s') \<Longrightarrow> (length (chan_in s') < length (chan_in s) \<and> chan_out s' = chan_out s)"
  "receive_rpc_value_receive_rpc_values_dom (Inr (ext, n, s)) \<Longrightarrow>
     receive_rpc_values ext n s = Inr (vs, s') \<Longrightarrow> (length (chan_in s') \<le> length (chan_in s) \<and> chan_out s' = chan_out s)"
proof (induct ext s and ext n s arbitrary: v s' and vs s'
       rule: receive_rpc_value_receive_rpc_values.pinduct)
  case (1 ext s)
  note eq = receive_rpc_value.psimps [OF "1.hyps"(1)]
  from "1.prems" obtain tag s1 where r: "read_int8 s = Inr (tag, s1)"
    unfolding eq by (cases "read_int8 s") auto
  note l1 = read_int8_length [OF r]
  have IHt: "(length (chan_in s3) \<le> length (chan_in s2) \<and> chan_out s3 = chan_out s2)"
    if "tag \<noteq> 0" "chr_is tag CHR ''t''" "read_int8 s1 = Inr (len, s2)"
       "receive_rpc_values ext (nat len) s2 = Inr (vs, s3)" for len s2 vs s3
    using "1.hyps"(2) [OF r refl that(1,2,3) refl that(4)] .
  have IHl: "(length (chan_in s3) \<le> length (chan_in s2) \<and> chan_out s3 = chan_out s2)"
    if "tag \<noteq> 0" "\<not> chr_is tag CHR ''t''"
           "\<not> chr_is tag CHR ''n''" "\<not> chr_is tag CHR ''b''" "\<not> chr_is tag CHR ''i''"
           "\<not> chr_is tag CHR ''I''" "\<not> chr_is tag CHR ''f''" "\<not> chr_is tag CHR ''F''"
           "\<not> chr_is tag CHR ''s''" "chr_is tag CHR ''l''" "read_int32 s1 = Inr (len, s2)"
       "receive_rpc_values ext (nat len) s2 = Inr (vs, s3)" for len s2 vs s3
    using "1.hyps"(3) [OF r refl that(1-11) refl that(12)] .
  have IHr1: "(length (chan_in s2) < length (chan_in s1) \<and> chan_out s2 = chan_out s1)"
    if "tag \<noteq> 0" "\<not> chr_is tag CHR ''t''"
           "\<not> chr_is tag CHR ''n''" "\<not> chr_is tag CHR ''b''" "\<not> chr_is tag CHR ''i''"
           "\<not> chr_is tag CHR ''I''" "\<not> chr_is tag CHR ''f''" "\<not> chr_is tag CHR ''F''"
           "\<not> chr_is tag CHR ''s''" "\<not> chr_is tag CHR ''l''" "chr_is tag CHR ''r''"
       "receive_rpc_value ext s1 = Inr (a, s2)" for a s2
    using "1.hyps"(4) [OF r refl that(1-11) that(12)] .
  have IHr2: "(length (chan_in s3) < length (chan_in s2) \<and> chan_out s3 = chan_out s2)"
    if "tag \<noteq> 0" "\<not> chr_is tag CHR ''t''"
           "\<not> chr_is tag CHR ''n''" "\<not> chr_is tag CHR ''b''" "\<not> chr_is tag CHR ''i''"
           "\<not> chr_is tag CHR ''I''" "\<not> chr_is tag CHR ''f''" "\<not> chr_is tag CHR ''F''"
           "\<not> chr_is tag CHR ''s''" "\<not> chr_is tag CHR ''l''" "chr_is tag CHR ''r''"
       "receive_rpc_value ext s1 = Inr (a, s2)" "receive_rpc_value ext s2 = Inr (b, s3)" for a s2 b s3
    using "1.hyps"(5) [OF r refl that(1-11) that(12) refl that(13)] .
  have IHr3: "(length (chan_in s4) < length (chan_in s3) \<and> chan_out s4 = chan_out s3)"
    if "tag \<noteq> 0" "\<not> chr_is tag CHR ''t''"
           "\<not> chr_is tag CHR ''n''" "\<not> chr_is tag CHR ''b''" "\<not> chr_is tag CHR ''i''"
           "\<not> chr_is tag CHR ''I''" "\<not> chr_is tag CHR ''f''" "\<not> chr_is tag CHR ''F''"
           "\<not> chr_is tag CHR ''s''" "\<not> chr_is tag CHR ''l''" "chr_is tag CHR ''r''"
       "receive_rpc_value ext s1 = Inr (a, s2)" "receive_rpc_value ext s2 = Inr (b, s3)"
       "receive_rpc_value ext s3 = Inr (c, s4)" for a s2 b s3 c s4
    using "1.hyps"(6) [OF r refl that(1-11) that(12) refl that(13) refl that(14)] .
  have IHk: "(length (chan_in s3) < length (chan_in s2) \<and> chan_out s3 = chan_out s2)"
    if "tag \<noteq> 0" "\<not> chr_is tag CHR ''t''"
           "\<not> chr_is tag CHR ''n''" "\<not> chr_is tag CHR ''b''" "\<not> chr_is tag CHR ''i''"
           "\<not> chr_is tag CHR ''I''" "\<not> chr_is tag CHR ''f''" "\<not> chr_is tag CHR ''F''"
           "\<not> chr_is tag CHR ''s''" "\<not> chr_is tag CHR ''l''" "\<not> chr_is tag CHR ''r''"
           "chr_is tag CHR ''k''" "read_string ext s1 = Inr (name, s2)"
       "receive_rpc_value ext s2 = Inr (a, s3)" for name s2 a s3
    using "1.hyps"(7) [OF r refl that(1-13) refl that(14)] .
  have "(length (chan_in s') \<le> length (chan_in s1) \<and> chan_out s' = chan_out s1)"
    using "1.prems" unfolding eq r sum.case prod.case
  proof (simp only: split: if_splits, goal_cases)
    case 1
    then show ?case by simp
  next
    case 2
    then obtain len s2 elts where a: "read_int8 s1 = Inr (len, s2)"
        "receive_rpc_values ext (nat len) s2 = Inr (elts, s')"
      by (auto split: sum.splits)
    from IHt [OF 2(1,2) a] read_int8_length [OF a(1)] show ?case by simp
  next
    case 3
    then show ?case by simp
  next
    case 4
    then obtain x where a: "read_int8 s1 = Inr (x, s')"
      by (auto split: sum.splits)
    from read_int8_length [OF a] show ?case by simp
  next
    case 5
    then obtain x where a: "read_int32 s1 = Inr (x, s')"
      by (auto split: sum.splits)
    from read_int32_length [OF a] show ?case by simp
  next
    case 6
    then obtain x where a: "read_int64 s1 = Inr (x, s')"
      by (auto split: sum.splits)
    from read_int64_length [OF a] show ?case by simp
  next
    case 7
    then obtain x where a: "read_float64 s1 = Inr (x, s')"
      by (auto split: sum.splits)
    from read_float64_length [OF a] show ?case by simp
  next
    case 8
    then obtain x s2 y where a: "read_int64 s1 = Inr (x, s2)" "read_int64 s2 = Inr (y, s')"
      by (auto split: sum.splits)
    from read_int64_length [OF a(1)] read_int64_length [OF a(2)] show ?case by simp
  next
    case 9
    then obtain x where a: "read_string ext s1 = Inr (x, s')"
      by (auto split: sum.splits)
    from read_string_length [OF a] show ?case by simp
  next
    case 10
    then obtain len s2 elts where a: "read_int32 s1 = Inr (len, s2)"
        "receive_rpc_values ext (nat len) s2 = Inr (elts, s')"
      by (auto split: sum.splits)
    from IHl [OF 10(1-10) a] read_int32_length [OF a(1)] show ?case by simp
  next
    case 11
    then obtain a s2 b s3 c where r: "receive_rpc_value ext s1 = Inr (a, s2)"
        "receive_rpc_value ext s2 = Inr (b, s3)" "receive_rpc_value ext s3 = Inr (c, s')"
      by (auto split: sum.splits)
    from IHr1 [OF 11(1-11) r(1)] IHr2 [OF 11(1-11) r(1,2)] IHr3 [OF 11(1-11) r]
    show ?case by simp
  next
    case 12
    then obtain name s2 a where r: "read_string ext s1 = Inr (name, s2)"
        "receive_rpc_value ext s2 = Inr (a, s')"
      by (auto split: sum.splits)
    from IHk [OF 12(1-12) r] read_string_length [OF r(1)] show ?case by simp
  next
    case 13
    then obtain x where a: "read_int32 s1 = Inr (x, s')"
      by (auto split: sum.splits)
    from read_int32_length [OF a] show ?case by simp
  next
    case 14
    then show ?case by simp
  qed
  with l1 show ?case by simp
next
  case (2 ext s)
  then show ?case by (simp add: receive_rpc_values.psimps)
next
  case (3 ext n s)
  from "3.prems" obtain v sa vs' where
    a: "receive_rpc_value ext s = Inr (v, sa)" "receive_rpc_values ext n sa = Inr (vs', s')"
    unfolding receive_rpc_values.psimps(2) [OF "3.hyps"(1)] by (auto split: sum.splits)
  from "3.hyps"(2) [OF a(1)] "3.hyps"(3) [OF a(1) refl a(2)] show ?case by simp
qed

termination receive_rpc_value
  by (relation "measure (\<lambda>x. case x of
          Inl (ext, s) \<Rightarrow> 2 * length (chan_in s)
        | Inr (ext, n, s) \<Rightarrow> 2 * length (chan_in s) + 1)")
     (auto dest!: read_int8_length read_int32_length read_string_length receive_shrinks)

lemma receive_total:
  "receive_rpc_value_receive_rpc_values_dom (Inl (ext, s))"
  "receive_rpc_value_receive_rpc_values_dom (Inr (ext, n, s))"
proof (induct ext s and ext n s rule: receive_rpc_value_receive_rpc_values.induct)
  case (1 ext s)
  note IH = 1
  show ?case
  proof (rule receive_rpc_value_receive_rpc_values.domintros, goal_cases)
    case (1 a b aa ba)
    from IH(1) [OF 1(1) refl 1(2-4) refl] show ?case .
  next
    case (2 a b aa ba)
    from IH(2) [OF 2(1) refl 2(2-12) refl] show ?case .
  next
    case (3 a b)
    from IH(3) [OF 3(1) refl 3(2-12)] show ?case .
  next
    case (4 a b aa ba)
    from IH(4) [OF 4(1) refl 4(2-13) refl] show ?case .
  next
    case (5 a b aa ba ab bb)
    from IH(5) [OF 5(1) refl 5(2-13) refl 5(14) refl] show ?case .
  next
    case (6 a b aa ba)
    from IH(6) [OF 6(1) refl 6(2-14) refl] show ?case .
  qed
next
  case (2 ext s)
  show ?case by (rule receive_rpc_value_receive_rpc_values.domintros)
next
  case (3 ext n s)
  show ?case
    by (rule receive_rpc_value_receive_rpc_values.domintros, rule 3(1), rule 3(2) [OF _ refl])
qed

lemma receive_rpc_value_length:
  "receive_rpc_value ext s = Inr (v, s1) \<Longrightarrow> length (chan_in s1) < length (chan_in s)"
  using receive_shrinks(1) receive_total(1) by blast

lemma receive_rpc_value_chan_out:
  "receive_rpc_value ext s = Inr (v, s1) \<Longrightarrow> chan_out s1 = chan_out s"
  using receive_shrinks(1) receive_total(1) by blast

declare receive_rpc_value.simps [simp del]

text \<open>\<open>_receive_rpc_args(embedding_map)\<close>; the dictionary \<open>kwargs\<close> is a map from names to
  values.\<close>

function receive_rpc_args_loop ::
  "externals \<Rightarrow> pyval list \<Rightarrow> (byte list \<rightharpoonup> pyval) \<Rightarrow> comm
     \<Rightarrow> error + ((pyval list \<times> (byte list \<rightharpoonup> pyval)) \<times> comm)"
where
  "receive_rpc_args_loop ext args kwargs s =
     (case receive_rpc_value ext s of
        Inl e \<Rightarrow> Inl e
      | Inr (v, s1) \<Rightarrow>
          if v = PySentinel then Inr ((args, kwargs), s1)
          else
            (case v of
               PyKeyword name x \<Rightarrow> receive_rpc_args_loop ext args (kwargs(name \<mapsto> x)) s1
             | _ \<Rightarrow> receive_rpc_args_loop ext (args @ [v]) kwargs s1))"
  by pat_completeness auto
termination
  by (relation "measure (\<lambda>(ext, args, kwargs, s). length (chan_in s))")
     (auto dest: receive_rpc_value_length)

declare receive_rpc_args_loop.simps [simp del]

definition receive_rpc_args ::
  "externals \<Rightarrow> comm \<Rightarrow> error + ((pyval list \<times> (byte list \<rightharpoonup> pyval)) \<times> comm)" where
  "receive_rpc_args ext s = receive_rpc_args_loop ext [] Map.empty s"

text \<open>
  The words of the specification for the result of \<open>_receive_rpc_args\<close>: the positional
  arguments are the received values that are not keywords, in the order received, and the
  keyword mapping gives each name the value of its last occurrence.
\<close>

fun is_keyword :: "pyval \<Rightarrow> bool" where
  "is_keyword (PyKeyword name x) = True"
| "is_keyword _ = False"

definition positional :: "pyval list \<Rightarrow> pyval list" where
  "positional vs = filter (\<lambda>v. \<not> is_keyword v) vs"

fun keyword_pairs :: "pyval list \<Rightarrow> (byte list \<times> pyval) list" where
  "keyword_pairs [] = []"
| "keyword_pairs (PyKeyword name x # vs) = (name, x) # keyword_pairs vs"
| "keyword_pairs (v # vs) = keyword_pairs vs"

definition last_wins :: "pyval list \<Rightarrow> (byte list \<rightharpoonup> pyval)" where
  "last_wins vs = map_of (rev (keyword_pairs vs))"

subsection \<open>Serving an RPC request\<close>

text \<open>Sequencing of steps that may raise, and a \<open>for\<close> loop over a list whose body may
  raise.\<close>

definition and_then :: "error + 'a \<Rightarrow> ('a \<Rightarrow> error + 'b) \<Rightarrow> error + 'b" where
  "and_then m f = (case m of Inl e \<Rightarrow> Inl e | Inr x \<Rightarrow> f x)"

fun for_each :: "('a \<Rightarrow> comm \<Rightarrow> error + comm) \<Rightarrow> 'a list \<Rightarrow> comm \<Rightarrow> error + comm" where
  "for_each body [] s = Inr s"
| "for_each body (x # xs) s = and_then (body x s) (for_each body xs)"

text \<open>\<open>xs[index]\<close> for an index that is not negative.\<close>

definition list_get :: "'a list \<Rightarrow> nat \<Rightarrow> error + 'a" where
  "list_get xs i = (if i < length xs then Inr (xs ! i) else Inl IndexError)"

text \<open>\<open>"{}".format(n)\<close> for an integer: its decimal digits, after a minus sign when it is
  negative.\<close>

fun decimal :: "nat \<Rightarrow> byte list" where
  "decimal n = (if n < 10 then [of_nat (48 + n)] else decimal (n div 10) @ [of_nat (48 + n mod 10)])"

declare decimal.simps [simp del]

definition format_int :: "int \<Rightarrow> byte list" where
  "format_int n = (if n < 0 then of_char CHR ''-'' # decimal (nat (- n)) else decimal (nat n))"

text \<open>The body of the \<open>try\<close> statement after the call has returned \<open>result\<close>, for a
  service id other than 0.\<close>

definition rpc_reply :: "pyval \<Rightarrow> byte list \<Rightarrow> pyval \<Rightarrow> comm \<Rightarrow> error + comm" where
  "rpc_reply service return_tags result s =
     and_then (write_bytes return_tags (write_header RPC_REPLY s)) (\<lambda>s1.
     and_then (send_rpc_value return_tags result result service s1) (\<lambda>(tags, s2).
     write_flush s2))"

text \<open>
  The two branches of the \<open>except\<close> clause: an exception that carries a core exception is
  sent as that record; any other is sent under the name that its type gives, with its
  message, three zero parameters and the frame that the traceback gives.

  In the first branch the items of the last frame are objects of any kind.
  \<open>filename, line, column, function = exn.traceback[-1]\<close> raises \<open>IndexError\<close> on an empty
  traceback and \<open>ValueError\<close> on a frame that has not exactly four items.
  \<open>_write_string(v)\<close> starts with \<open>v.encode("utf-8")\<close>, which only a \<open>str\<close> has, and
  \<open>struct.pack(">l", v)\<close> in \<open>_write_int32(v)\<close> takes the integer that \<open>v\<close> stands for and
  raises \<open>struct.error\<close> when there is none.
\<close>

definition encode_utf8 :: "pyval \<Rightarrow> error + byte list" where
  "encode_utf8 v = (case v of PyStr b \<Rightarrow> Inr b | _ \<Rightarrow> Inl AttributeError)"

definition write_string_of :: "pyval \<Rightarrow> comm \<Rightarrow> error + comm" where
  "write_string_of v s = and_then (encode_utf8 v) (\<lambda>b. write_string b s)"

definition write_int32_of :: "externals \<Rightarrow> pyval \<Rightarrow> comm \<Rightarrow> error + comm" where
  "write_int32_of ext v s =
     (case index ext v of Inl e \<Rightarrow> Inl StructError | Inr n \<Rightarrow> write_int32 n s)"

definition write_core_exception :: "externals \<Rightarrow> core_exception \<Rightarrow> comm \<Rightarrow> error + comm" where
  "write_core_exception ext core s0 =
     and_then (write_string (core_name core) s0) (\<lambda>s1.
     and_then (write_string (core_message core) s1) (\<lambda>s2.
     and_then (for_each (\<lambda>index sa.
                 and_then (list_get (core_param core) index) (\<lambda>p. write_int64 p sa))
               [0, 1, 2] s2) (\<lambda>s3.
     and_then (if core_traceback core = [] then Inl IndexError
               else Inr (last (core_traceback core))) (\<lambda>fr.
     if length fr \<noteq> 4 then Inl ValueError
     else
       and_then (write_string_of (fr ! 0) s3) (\<lambda>s4.
       and_then (write_int32_of ext (fr ! 1) s4) (\<lambda>s5.
       and_then (write_int32_of ext (fr ! 2) s5) (\<lambda>s6.
       write_string_of (fr ! 3) s6)))))))"

definition exception_name :: "externals \<Rightarrow> pyexn \<Rightarrow> byte list" where
  "exception_name ext exn =
     (if exn_type_in_builtins exn \<or> exn_artiq_builtin exn
      then map of_char ''0:'' @ exn_type_name exn
      else format_int (store_object ext (exn_type exn)) @ map of_char '':''
             @ exn_type_module exn @ map of_char ''.'' @ exn_type_qualname exn)"

definition write_host_exception :: "externals \<Rightarrow> pyexn \<Rightarrow> comm \<Rightarrow> error + comm" where
  "write_host_exception ext exn s0 =
     and_then (write_string (exception_name ext exn) s0) (\<lambda>s1.
     and_then (write_string (exn_str exn) s1) (\<lambda>s2.
     and_then (for_each (\<lambda>index sa. write_int64 0 sa) [0 :: nat, 1, 2] s2) (\<lambda>s3.
     and_then
       (if length (exn_tb exn) = 2 then Inr (exn_tb exn ! 1)
        else if length (exn_tb exn) = 1 then Inr (exn_tb exn ! 0)
        else Inl AssertionError)
       (\<lambda>(filename, line, fn).
     and_then (write_string filename s3) (\<lambda>s4.
     and_then (write_int32 line s4) (\<lambda>s5.
     and_then (write_int32 (- 1) s5) (\<lambda>s6.
     write_string fn s6)))))))"

text \<open>The body of the \<open>except\<close> clause.\<close>

definition rpc_exception :: "externals \<Rightarrow> pyexn \<Rightarrow> comm \<Rightarrow> error + comm" where
  "rpc_exception ext exn s =
     (let s0 = write_header RPC_EXCEPTION s in
      and_then
        (case exn_core exn of
           Some core \<Rightarrow> write_core_exception ext core s0
         | None \<Rightarrow> write_host_exception ext exn s0)
        write_flush)"

text \<open>
  \<open>_serve_rpc(embedding_map)\<close>. The \<open>try\<close> statement yields the driver when its body
  completes and the exception otherwise; an exception that the module itself raises there is
  the object \<open>reify\<close> gives. The body changes the driver only in \<open>_write_type\<close> and
  \<open>_write_buffer\<close> before its last step, \<open>_write_flush\<close>, and the \<open>except\<close> clause starts
  by setting both, so the clause runs from the driver as it was before the \<open>try\<close>. The clause
  catches instances of \<open>Exception\<close>; any other exception leaves \<open>_serve_rpc\<close>.
\<close>

definition serve_rpc :: "externals \<Rightarrow> comm \<Rightarrow> error + comm" where
  "serve_rpc ext s =
     and_then (read_int32 s) (\<lambda>(service_id, s1).
     and_then (if service_id = 0 then Inr PySetattr else retrieve_object ext service_id) (\<lambda>service.
     and_then (receive_rpc_args ext s1) (\<lambda>((args, kwargs), s2).
     and_then (read_bytes s2) (\<lambda>(return_tags, s3).
       case (case call ext service args kwargs of
               Inl exn \<Rightarrow> Inl exn
             | Inr result \<Rightarrow>
                 if service_id \<noteq> 0 then
                   (case rpc_reply service return_tags result s3 of
                      Inl e \<Rightarrow> Inl (reify ext e)
                    | Inr s4 \<Rightarrow> Inr s4)
                 else Inr s3) of
         Inr s4 \<Rightarrow> Inr s4
       | Inl exn \<Rightarrow>
           if exn_is_exception exn then rpc_exception ext exn s3
           else Inl (Propagated exn)))))"

text \<open>
  What the writers of chunks leave alone: the message type set by \<open>_write_header\<close> and the
  bytes already written to the channel.
\<close>

definition keeps :: "comm \<Rightarrow> comm \<Rightarrow> bool" where
  "keeps s s' \<longleftrightarrow> write_type s' = write_type s \<and> chan_out s' = chan_out s"

text \<open>
  The words of the specification for the payload of an \<open>RPC_EXCEPTION\<close> message: the name
  and the message as strings, the parameters in 64 bits each, then the file name, the line,
  the column and the name of the routine; a string is its length with the terminator in 32
  bits, its bytes and a zero byte. For a host exception the parameters are three zeros and the
  column is \<open>-1\<close>.
\<close>

definition spec_exception_chunks ::
  "byte list \<Rightarrow> byte list \<Rightarrow> int list \<Rightarrow> byte list \<Rightarrow> int \<Rightarrow> int \<Rightarrow> byte list \<Rightarrow> byte list list" where
  "spec_exception_chunks name msg params filename line column fn =
     [be_bytes 4 (int (length name) + 1), name @ [0],
      be_bytes 4 (int (length msg) + 1), msg @ [0]] @
     map (be_bytes 8) params @
     [be_bytes 4 (int (length filename) + 1), filename @ [0],
      be_bytes 4 line, be_bytes 4 column,
      be_bytes 4 (int (length fn) + 1), fn @ [0]]"

text \<open>
  The words of the specification for a flushed message: the driver after the envelope of a
  message of type \<open>ty\<close> with the chunks \<open>chunks\<close> has been written, sync, total length in 32
  bits, type byte and payload.
\<close>

definition spec_sent :: "H2DMsgType \<Rightarrow> byte list list \<Rightarrow> comm \<Rightarrow> comm" where
  "spec_sent ty chunks s =
     s\<lparr>write_type := Some ty, write_buffer := chunks,
       chan_out := chan_out s @ [0x5a, 0x5a, 0x5a, 0x5a] @
         be_bytes 4 (9 + int (length (concat chunks))) @ [word_of_int (h2d_value ty)] @
         concat chunks\<rparr>"

subsection \<open>Exported APIs\<close>

text \<open>\<open>check_ident\<close> has no \<open>return\<close> statement: its value is \<open>None\<close>. The gateware version
  is decoded and compared with the software version, and a mismatch is logged.\<close>

definition check_ident :: "externals \<Rightarrow> comm \<Rightarrow> error + (pyval \<times> comm)" where
  "check_ident ext s =
     (case write_empty IDENT_REQUEST s of
        Inl e \<Rightarrow> Inl e
      | Inr s1 \<Rightarrow>
     (case read_header s1 of
        Inl e \<Rightarrow> Inl e
      | Inr s2 \<Rightarrow>
     (case read_expect IDENT_REPLY s2 of
        Inl e \<Rightarrow> Inl e
      | Inr s3 \<Rightarrow>
     (case read_chunk 4 s3 of
        Inl e \<Rightarrow> Inl e
      | Inr (runtime_id, s4) \<Rightarrow>
          if runtime_id \<noteq> [0x41, 0x52, 0x4f, 0x52] then Inl (UnsupportedDevice runtime_id)
          else
            (case read_chunk (read_length s4) s4 of
               Inl e \<Rightarrow> Inl e
             | Inr (d, s5) \<Rightarrow>
            (case decode_utf8 ext d of
               Inl e \<Rightarrow> Inl e
             | Inr gateware_version \<Rightarrow>
                 if gateware_version \<noteq> software_version ext \<and>
                    gateware_version @ map of_char ''.dirty'' \<noteq> software_version ext
                 then Inr (PyNone,
                        s5\<lparr>warnings := warnings s5 @ [(gateware_version, software_version ext)]\<rparr>)
                 else Inr (PyNone, s5)))))))"

subsection \<open>A concrete environment\<close>

text \<open>An environment for running the model on concrete inputs: software version \<open>v\<close>, a
  decoder that accepts every byte string, an embedding map that holds the objects of
  \<open>objs\<close> by position, and a \<open>call\<close> whose outcome is \<open>outcome\<close> whatever the service and its
  arguments.\<close>

definition plain_exn :: "byte list \<Rightarrow> byte list \<Rightarrow> pyexn" where
  "plain_exn name msg =
     \<lparr> exn_is_exception = True, exn_core = None, exn_type = PyObject 0, exn_type_name = name,
       exn_type_module = map of_char ''builtins'', exn_type_qualname = name,
       exn_type_in_builtins = True, exn_artiq_builtin = False, exn_str = msg,
       exn_tb = [(map of_char ''comm_generic.py'', 455, map of_char ''_serve_rpc''),
                 (map of_char ''service.py'', 3, map of_char ''service'')] \<rparr>"

definition test_externals :: "byte list \<Rightarrow> pyval list \<Rightarrow> pyexn + pyval \<Rightarrow> externals" where
  "test_externals v objs outcome =
     \<lparr> software_version = v,
       utf8_ok = (\<lambda>d. True),
       retrieve_object = (\<lambda>i. if 0 \<le> i \<and> i < int (length objs) then Inr (objs ! nat i) else Inl KeyError),
       store_object = (\<lambda>t. 1),
       call = (\<lambda>service args kwargs. outcome),
       reify = (\<lambda>e. plain_exn (map of_char ''Exception'') []),
       index = (\<lambda>v. case v of PyInt n \<Rightarrow> Inr n | PyBool b \<Rightarrow> Inr (if b then 1 else 0)
                      | PyWrapInt n w \<Rightarrow> Inr n | _ \<Rightarrow> Inl TypeError) \<rparr>"

text \<open>
  An exception that a service raises again after a kernel call failed: it carries the core
  exception, whose traceback ends with the frame \<open>fr\<close>. The bodies of two \<open>RPC_REQUEST\<close>
  messages, after the header has been read: one for the object stored under 1, called without
  arguments, and one for service 0 with the arguments object 1, \<open>"x"\<close> and 5; both with the
  return tags \<open>"n"\<close>.
\<close>

definition kernel_exn :: "frame \<Rightarrow> pyexn" where
  "kernel_exn fr =
     (plain_exn (map of_char ''RTIOUnderflow'') (map of_char ''late''))
       \<lparr>exn_core := Some \<lparr> core_name = map of_char ''RTIOUnderflow'',
                             core_message = map of_char ''late'',
                             core_param = [1, 2, 3], core_traceback = [fr] \<rparr>\<rparr>"

definition setattr_exn :: pyexn where
  "setattr_exn =
     (plain_exn (map of_char ''ValueError'') (map of_char ''bad''))
       \<lparr>exn_tb := [(map of_char ''comm_generic.py'', 455, map of_char ''_serve_rpc''),
                   (map of_char ''comm_generic.py'', 446, map of_char ''<lambda>'')]\<rparr>"

definition call_request :: comm where
  "call_request = (init [0, 0, 0, 1, 0, 0, 0, 0, 1, 0x6e])\<lparr>read_length := 10\<rparr>"

definition setattr_request :: comm where
  "setattr_request =
     (init [0, 0, 0, 0, 0x4f, 0, 0, 0, 1, 0x73, 0, 0, 0, 2, 0x78, 0, 0x69, 0, 0, 0, 5, 0,
            0, 0, 0, 1, 0x6e])\<lparr>read_length := 27\<rparr>"

section \<open>Properties\<close>

subsection \<open>Packing and unpacking\<close>

lemma be_uint_snoc: "be_uint (bs @ [b]) = be_uint bs * 256 + uint b"
  by (simp add: be_uint_def)


lemma be_uint_be_bytes: "be_uint (be_bytes n v) = v mod 2 ^ (8 * n)"
proof (induction n arbitrary: v)
  case 0
  then show ?case by (simp add: be_uint_def)
next
  case (Suc n)
  have e: "(2::int) ^ (8 * Suc n) = 256 * 2 ^ (8 * n)"
    by (simp add: power_add)
  have "v mod (256 * 2 ^ (8 * n)) = 256 * (v div 256 mod 2 ^ (8 * n)) + v mod 256"
    by (simp add: zmod_zmult2_eq)
  with e have "v mod 2 ^ (8 * Suc n) = v div 256 mod 2 ^ (8 * n) * 256 + v mod 256"
    by simp
  then show ?case
    using Suc by (simp add: be_uint_snoc uint_word_of_int take_bit_eq_mod del: power_Suc)
qed

lemma length_be_bytes: "length (be_bytes n v) = n"
  by (induction n arbitrary: v) simp_all

lemma to_signed_mod:
  assumes "0 < bits" "- (2 ^ (bits - 1)) \<le> v" "v < 2 ^ (bits - 1)"
  shows "to_signed bits (v mod 2 ^ bits) = v"
proof -
  have p: "(2::int) ^ bits = 2 * 2 ^ (bits - 1)"
    using assms(1) by (cases bits) simp_all
  have q: "(0::int) < 2 ^ (bits - 1)" by simp
  show ?thesis
  proof (cases "0 \<le> v")
    case True
    then have "v mod 2 ^ bits = v" using assms p by simp
    then show ?thesis using assms by (simp add: to_signed_def)
  next
    case False
    have "(v + 2 ^ bits) mod 2 ^ bits = v + 2 ^ bits"
      using assms False p q by (intro mod_pos_pos_trivial) linarith+
    then have "v mod 2 ^ bits = v + 2 ^ bits" by simp
    then show ?thesis using assms False p q by (simp add: to_signed_def)
  qed
qed

lemma unpack_pack_l: "pack_l v = Inr d \<Longrightarrow> unpack_l d = Inr v"
  using to_signed_mod [of 32 v] be_uint_be_bytes [of 4 v] length_be_bytes [of 4 v]
  by (auto simp: pack_l_def unpack_l_def simp del: be_bytes.simps split: if_splits)

lemma unpack_pack_B: "pack_B v = Inr d \<Longrightarrow> unpack_B d = Inr v"
  using be_uint_be_bytes [of 1 v] length_be_bytes [of 1 v]
  by (auto simp: pack_B_def unpack_B_def simp del: be_bytes.simps split: if_splits)


subsection \<open>The framer\<close>

lemma be_uint_single: "be_uint [b] = uint b"
  by (simp add: be_uint_def)

lemma read_header_after_sync:
  assumes "read_length s \<le> 0" "wait_sync 0 s = Inr s1" "chan_in s1 = l0 # l1 # l2 # l3 # rest"
  shows "read_header s =
     (let len = to_signed 32 (be_uint [l0, l1, l2, l3]) in
      if len = 0 then Inl ConnectionClosed
      else (case rest of
              [] \<Rightarrow> Inl ChannelError
            | t # rest' \<Rightarrow>
               (case D2HMsgType_of (uint t) of
                  None \<Rightarrow> Inl (UnknownMsgType (uint t))
                | Some ty \<Rightarrow>
                    if len < 9 then Inl (ReadOverrunHeader len)
                    else Inr (s1\<lparr>chan_in := rest', read_length := len - 9, read_type := Some ty\<rparr>))))"
  using assms
  by (simp add: read_header_def chan_read_def unpack_l_def unpack_B_def Let_def be_uint_single
           split: list.splits option.splits)

lemma wait_sync_init: "wait_sync 0 (init (0x5a # 0x5a # 0x5a # 0x5a # xs)) = Inr (init xs)"
  by (simp add: wait_sync.simps init_def chan_read_def unpack_B_def be_uint_single)

lemma foldl_chan_write:
  "foldl (\<lambda>s' chunk. chan_write chunk s') s cs = s\<lparr>chan_out := chan_out s @ concat cs\<rparr>"
  by (induction cs arbitrary: s) (simp_all add: chan_write_def)

lemma write_flush_eq:
  "write_flush s =
     (case write_type s of
        None \<Rightarrow> Inl AttributeError
      | Some ty \<Rightarrow>
          (case pack_llB 0x5a5a5a5a (9 + int (length (concat (write_buffer s)))) (h2d_value ty) of
             Inl e \<Rightarrow> Inl e
           | Inr hdr \<Rightarrow> Inr (s\<lparr>chan_out := chan_out s @ hdr @ concat (write_buffer s)\<rparr>)))"
proof -
  have len: "sum_list (map (\<lambda>chunk. int (length chunk)) cs) = int (length (concat cs))"
    for cs :: "byte list list"
    by (induction cs) simp_all
  show ?thesis
    unfolding write_flush_def foldl_chan_write len Let_def
    by (simp add: chan_write_def split: option.splits sum.splits)
qed

lemma write_flush_buffer: "write_flush s = Inr s' \<Longrightarrow> write_buffer s' = write_buffer s"
  by (auto simp: write_flush_eq split: option.splits sum.splits)

lemma write_buffer_chunks:
  "write_buffer (foldl (\<lambda>s c. write_chunk c s) s cs) = write_buffer s @ cs"
  by (induction cs arbitrary: s) (simp_all add: write_chunk_def)

lemma wait_sync_step:
  "c < 4 \<Longrightarrow> wait_sync c (s\<lparr>chan_in := g # xs\<rparr>) =
     (if g = 0x5a then wait_sync (c + 1) (s\<lparr>chan_in := xs\<rparr>) else wait_sync 0 (s\<lparr>chan_in := xs\<rparr>))"
proof -
  have u: "(uint g = 90) = (g = 90)"
    using word_uint_eq_iff [of g 90] by simp
  show "c < 4 \<Longrightarrow> ?thesis"
    by (subst wait_sync.simps) (simp add: chan_read_def unpack_B_def be_uint_single u)
qed

lemma wait_sync_skip:
  "c < 4 \<Longrightarrow> \<not> sublist [0x5a, 0x5a, 0x5a, 0x5a] (replicate c 0x5a @ G) \<Longrightarrow> G \<noteq> [] \<Longrightarrow>
   last G \<noteq> 0x5a \<Longrightarrow>
   wait_sync c (s\<lparr>chan_in := G @ env\<rparr>) = wait_sync 0 (s\<lparr>chan_in := env\<rparr>)"
proof (induction G arbitrary: c)
  case Nil
  then show ?case by simp
next
  case (Cons g G)
  show ?case
  proof (cases "g = 0x5a")
    case True
    have c3: "c \<noteq> 3"
    proof
      assume "c = 3"
      then have "replicate c 0x5a @ g # G = [0x5a, 0x5a, 0x5a, 0x5a] @ G"
        using True by (simp add: numeral_3_eq_3)
      then show False using Cons.prems(2) by (metis sublist_append_rightI)
    qed
    then have lt: "c + 1 < 4" using Cons.prems(1) by simp
    have ne1: "G \<noteq> []" using Cons.prems(4) True by auto
    have ne2: "last G \<noteq> 0x5a" using Cons.prems(4) ne1 by simp
    note ne = ne1 ne2
    have "replicate (c + 1) 0x5a @ G = replicate c 0x5a @ g # G"
      using True by (simp add: replicate_app_Cons_same)
    then have "\<not> sublist [0x5a, 0x5a, 0x5a, 0x5a] (replicate (c + 1) 0x5a @ G)"
      using Cons.prems(2) by simp
    from Cons.IH [OF lt this ne] show ?thesis
      using True Cons.prems(1) by (simp add: wait_sync_step)
  next
    case False
    show ?thesis
    proof (cases "G = []")
      case True
      then show ?thesis using False Cons.prems(1) by (simp add: wait_sync_step)
    next
      case ne: False
      have "\<not> sublist [0x5a, 0x5a, 0x5a, 0x5a] (replicate 0 0x5a @ G)"
      proof
        assume "sublist [0x5a, 0x5a, 0x5a, 0x5a] (replicate 0 0x5a @ G)"
        then have "sublist [0x5a, 0x5a, 0x5a, 0x5a] G" by simp
        then have "sublist [0x5a, 0x5a, 0x5a, 0x5a] ((replicate c 0x5a @ [g]) @ G)"
          unfolding sublist_def by (metis append.assoc)
        then show False using Cons.prems(2) by simp
      qed
      from Cons.IH [OF _ this ne] Cons.prems(4) ne show ?thesis
        using False Cons.prems(1) by (simp add: wait_sync_step)
    qed
  qed
qed

lemma read_header_chan_cong:
  "wait_sync 0 s = wait_sync 0 s' \<Longrightarrow> read_length s = read_length s' \<Longrightarrow> read_header s = read_header s'"
  by (simp add: read_header_def)

lemma wait_sync_found:
  "wait_sync 0 (s\<lparr>chan_in := 0x5a # 0x5a # 0x5a # 0x5a # xs\<rparr>) = Inr (s\<lparr>chan_in := xs\<rparr>)"
  by (simp add: wait_sync_step) (simp add: wait_sync.simps)

lemma read_header_after_sync_bytes:
  assumes "read_length s \<le> 0" "wait_sync 0 s = Inr s1" "chan_in s1 = lb @ t # rest" "length lb = 4"
  shows "read_header s =
     (let len = to_signed 32 (be_uint lb) in
      if len = 0 then Inl ConnectionClosed
      else (case D2HMsgType_of (uint t) of
              None \<Rightarrow> Inl (UnknownMsgType (uint t))
            | Some ty \<Rightarrow>
                if len < 9 then Inl (ReadOverrunHeader len)
                else Inr (s1\<lparr>chan_in := rest, read_length := len - 9, read_type := Some ty\<rparr>)))"
proof -
  obtain l0 l1 l2 l3 where lb: "lb = [l0, l1, l2, l3]"
    using assms(4) by (auto simp: length_Suc_conv numeral_eq_Suc)
  show ?thesis
    using read_header_after_sync [OF assms(1,2), of l0 l1 l2 l3 "t # rest"] assms(3)
    by (simp add: lb Let_def)
qed

lemma be_bytes_4:
  "be_bytes 4 v = [word_of_int (v div 256 div 256 div 256), word_of_int (v div 256 div 256),
                   word_of_int (v div 256), word_of_int v]"
proof -
  have "be_bytes (Suc (Suc (Suc (Suc 0)))) v =
          [word_of_int (v div 256 div 256 div 256), word_of_int (v div 256 div 256),
           word_of_int (v div 256), word_of_int v]"
    by simp
  then show ?thesis by (simp only: numeral_eq_Suc pred_numeral_simps Suc_eq_plus1_left one_add_one) (simp add: numeral_eq_Suc)
qed

lemma D2H_of_h2d: "\<exists>ty. D2HMsgType_of (h2d_value T) = Some ty \<and> d2h_value ty = h2d_value T"
  by (cases T) (simp_all add: D2HMsgType_of_def)

lemma h2d_value_range: "0 \<le> h2d_value T \<and> h2d_value T \<le> 255"
  by (cases T) simp_all

lemma read_header_envelope:
  assumes "read_length r \<le> 0"
      and "chan_in r = [0x5a, 0x5a, 0x5a, 0x5a] @ be_bytes 4 L @ [t] @ rest"
      and "9 \<le> L" "L \<le> 2 ^ 31 - 1"
      and "D2HMsgType_of (uint t) = Some ty"
  shows "read_header r = Inr (r\<lparr>chan_in := rest, read_length := L - 9, read_type := Some ty\<rparr>)"
proof -
  have r_eq: "r = r\<lparr>chan_in := 0x5a # 0x5a # 0x5a # 0x5a # (be_bytes 4 L @ t # rest)\<rparr>"
    using assms(2) by simp
  have ws: "wait_sync 0 r = Inr (r\<lparr>chan_in := be_bytes 4 L @ t # rest\<rparr>)"
    by (subst r_eq) (rule wait_sync_found)
  have len: "to_signed 32 (be_uint (be_bytes 4 L)) = L"
    using assms(3,4) to_signed_mod [of 32 L] by (simp add: be_uint_be_bytes)
  show ?thesis
    using read_header_after_sync_bytes [OF assms(1) ws, of "be_bytes 4 L" t rest] assms(3,5)
    by (simp add: length_be_bytes len Let_def del: be_bytes.simps)
qed

lemma write_empty_eq:
  "write_empty ty s =
     Inr (s\<lparr>write_type := Some ty, write_buffer := [],
            chan_out := chan_out s @ [0x5a, 0x5a, 0x5a, 0x5a, 0, 0, 0, 9, word_of_int (h2d_value ty)]\<rparr>)"
  using h2d_value_range [of ty]
  by (simp add: write_empty_def write_flush_eq write_header_def pack_llB_def pack_l_def pack_B_def
        be_bytes_4)

lemma check_ident_eq:
  assumes "read_length s \<le> 0"
      and "chan_in s = [0x5a, 0x5a, 0x5a, 0x5a] @ be_bytes 4 (9 + int (length body)) @ [2] @ body @ rest"
      and "9 + int (length body) \<le> 2 ^ 31 - 1"
      and "4 \<le> length body"
  shows "check_ident ext s =
     (if take 4 body \<noteq> [0x41, 0x52, 0x4f, 0x52] then Inl (UnsupportedDevice (take 4 body))
      else if \<not> utf8_ok ext (drop 4 body) then Inl UnicodeDecodeError
      else Inr (PyNone,
             s\<lparr>write_type := Some IDENT_REQUEST, write_buffer := [],
               chan_out := chan_out s @ [0x5a, 0x5a, 0x5a, 0x5a, 0, 0, 0, 9, 3],
               read_type := Some IDENT_REPLY, read_length := 0, chan_in := rest,
               warnings := warnings s @
                 (if drop 4 body \<noteq> software_version ext \<and>
                     drop 4 body @ map of_char ''.dirty'' \<noteq> software_version ext
                  then [(drop 4 body, software_version ext)] else [])\<rparr>))"
proof -
  let ?s1 = "s\<lparr>write_type := Some IDENT_REQUEST, write_buffer := [],
               chan_out := chan_out s @ [0x5a, 0x5a, 0x5a, 0x5a, 0, 0, 0, 9, 3]\<rparr>"
  let ?s2 = "?s1\<lparr>chan_in := body @ rest, read_length := int (length body),
                 read_type := Some IDENT_REPLY\<rparr>"
  have w: "write_empty IDENT_REQUEST s = Inr ?s1"
    by (simp add: write_empty_eq)
  have ty: "D2HMsgType_of (uint (2 :: byte)) = Some IDENT_REPLY"
    by (simp add: D2HMsgType_of_def)
  have h: "read_header ?s1 = Inr ?s2"
    using read_header_envelope [of ?s1 "9 + int (length body)" 2 "body @ rest" IDENT_REPLY]
      assms(1,2,3) ty
    by simp
  have e: "read_expect IDENT_REPLY ?s2 = Inr ?s2"
    by (simp add: read_expect_def)
  have c4: "read_chunk 4 ?s2 =
      Inr (take 4 body, ?s2\<lparr>read_length := int (length body) - 4, chan_in := drop 4 body @ rest\<rparr>)"
    using assms(4) by (simp add: read_chunk_def chan_read_def)
  have c: "read_chunk (int (length body) - 4)
             (?s2\<lparr>read_length := int (length body) - 4, chan_in := drop 4 body @ rest\<rparr>) =
      Inr (drop 4 body, ?s2\<lparr>read_length := 0, chan_in := rest\<rparr>)"
    using assms(4) by (simp add: read_chunk_def chan_read_def nat_diff_distrib)
  show ?thesis
    using c unfolding check_ident_def w sum.case h e c4 prod.case
    by (simp add: decode_utf8_def)
qed

subsection \<open>Claims about the framer\<close>

text \<open>
  C4, as amended. \<open>_write_flush\<close> does not clear the builder: when it completes on a builder
  that \<open>_write_header\<close> started and to which the chunks \<open>chunks\<close> were appended, the pending
  chunk sequence is still \<open>chunks\<close>. It is the next \<open>_write_header\<close> that empties it.
\<close>

theorem write_flush_keeps_buffer:
  assumes "write_flush (foldl (\<lambda>s c. write_chunk c s) (write_header ty s0) chunks) = Inr s'"
  shows "write_buffer s' = chunks \<and> write_buffer (write_header ty' s') = []"
  using write_flush_buffer [OF assms]
  by (simp add: write_buffer_chunks write_header_def)

theorem write_flush_keeps_buffer_witness:
  "\<exists>s'. write_flush (foldl (\<lambda>s c. write_chunk c s) (write_header FLASH_WRITE_REQUEST (init []))
            [[1, 2], [3]]) = Inr s'
     \<and> write_buffer s' = [[1, 2], [3]] \<and> write_buffer (write_header RUN_KERNEL s') = []"
proof -
  have "\<exists>s'. write_flush (foldl (\<lambda>s c. write_chunk c s)
            (write_header FLASH_WRITE_REQUEST (init [])) [[1, 2], [3]]) = Inr s'"
    by (simp add: write_flush_eq write_chunk_def write_header_def init_def pack_llB_def
          pack_l_def pack_B_def)
  then obtain s' where h: "write_flush (foldl (\<lambda>s c. write_chunk c s)
            (write_header FLASH_WRITE_REQUEST (init [])) [[1, 2], [3]]) = Inr s'" ..
  from write_flush_keeps_buffer [OF h, of RUN_KERNEL] h show ?thesis by blast
qed

text \<open>
  C4 as stated fails: after a header, one appended chunk and a flush that completes, the
  pending chunk sequence is not empty.
\<close>

theorem write_flush_not_cleared:
  "write_flush (write_chunk [1] (write_header LOG_REQUEST (init []))) =
     Inr \<lparr> read_type = None, read_length = 0, write_type = Some LOG_REQUEST,
           write_buffer = [[1]], chan_in = [],
           chan_out = [0x5a, 0x5a, 0x5a, 0x5a, 0, 0, 0, 10, 1, 1], warnings = [] \<rparr>"
  by (simp add: write_flush_eq write_chunk_def write_header_def init_def pack_llB_def
        pack_l_def pack_B_def be_bytes_4)

text \<open>
  C7. \<open>_read_header\<close> fails with a read underrun whenever \<open>_read_length > 0\<close> at entry.
  Otherwise, once the synchronization loop has returned and the four length bytes are there,
  it fails with "connection closed" exactly when the length field is zero; for a nonzero length
  and a type byte \<open>t\<close>, it fails on an unknown type byte; for a known type it fails with the
  malformed-header error exactly when the length is below 9, and otherwise it stores the type
  and sets \<open>_read_length\<close> to the length minus 9. The checks are made in that order.
\<close>

theorem read_header_outcomes:
  "(0 < read_length s \<longrightarrow> read_header s = Inl (ReadUnderrun (read_length s))) \<and>
   (read_length s \<le> 0 \<and> wait_sync 0 s = Inr s1 \<and> chan_in s1 = l0 # l1 # l2 # l3 # rest \<and>
    len = to_signed 32 (be_uint [l0, l1, l2, l3]) \<longrightarrow>
      (read_header s = Inl ConnectionClosed \<longleftrightarrow> len = 0) \<and>
      (\<forall>t rest'. rest = t # rest' \<and> len \<noteq> 0 \<longrightarrow>
         (case D2HMsgType_of (uint t) of
            None \<Rightarrow> read_header s = Inl (UnknownMsgType (uint t))
          | Some ty \<Rightarrow>
              (read_header s = Inl (ReadOverrunHeader len) \<longleftrightarrow> len < 9) \<and>
              (9 \<le> len \<longrightarrow>
                 read_header s =
                   Inr (s1\<lparr>chan_in := rest', read_length := len - 9, read_type := Some ty\<rparr>)))))"
proof (intro conjI impI)
  assume "0 < read_length s"
  then show "read_header s = Inl (ReadUnderrun (read_length s))"
    by (simp add: read_header_def)
next
  assume a: "read_length s \<le> 0 \<and> wait_sync 0 s = Inr s1 \<and> chan_in s1 = l0 # l1 # l2 # l3 # rest \<and>
    len = to_signed 32 (be_uint [l0, l1, l2, l3])"
  then have eq: "read_header s =
     (if len = 0 then Inl ConnectionClosed
      else (case rest of
              [] \<Rightarrow> Inl ChannelError
            | t # rest' \<Rightarrow>
               (case D2HMsgType_of (uint t) of
                  None \<Rightarrow> Inl (UnknownMsgType (uint t))
                | Some ty \<Rightarrow>
                    if len < 9 then Inl (ReadOverrunHeader len)
                    else Inr (s1\<lparr>chan_in := rest', read_length := len - 9, read_type := Some ty\<rparr>))))"
    using read_header_after_sync [of s s1 l0 l1 l2 l3 rest] by (simp only: Let_def)
  show "read_header s = Inl ConnectionClosed \<longleftrightarrow> len = 0"
    unfolding eq by (simp split: list.splits option.splits)
  show "\<forall>t rest'. rest = t # rest' \<and> len \<noteq> 0 \<longrightarrow>
         (case D2HMsgType_of (uint t) of
            None \<Rightarrow> read_header s = Inl (UnknownMsgType (uint t))
          | Some ty \<Rightarrow>
              (read_header s = Inl (ReadOverrunHeader len) \<longleftrightarrow> len < 9) \<and>
              (9 \<le> len \<longrightarrow>
                 read_header s =
                   Inr (s1\<lparr>chan_in := rest', read_length := len - 9, read_type := Some ty\<rparr>)))"
    unfolding eq by (auto split: option.splits)
qed

theorem read_header_outcomes_witness:
  "read_header (init [0x5a, 0x5a, 0x5a, 0x5a, 0, 0, 0, 0x11, 2, 0x41, 0x52, 0x4f, 0x52, 0x31, 0x2e, 0x30])
     = Inr ((init [0x41, 0x52, 0x4f, 0x52, 0x31, 0x2e, 0x30])\<lparr>read_length := 8, read_type := Some IDENT_REPLY\<rparr>)
   \<and> read_header ((init [])\<lparr>read_length := 3\<rparr>) = Inl (ReadUnderrun 3)"
proof -
  have a: "to_signed 32 (be_uint [0, 0, 0, 0x11]) = 17"
    by (simp add: to_signed_def be_uint_def)
  have b: "D2HMsgType_of 2 = Some IDENT_REPLY"
    by (simp add: D2HMsgType_of_def)
  have c: "read_length (init xs) = 0" "chan_in (init xs) = xs" for xs
    by (simp_all add: init_def)
  have d: "(init ys)\<lparr>chan_in := xs, read_length := 8, read_type := Some IDENT_REPLY\<rparr>
          = (init xs)\<lparr>read_length := 8, read_type := Some IDENT_REPLY\<rparr>" for xs ys
    by (simp add: init_def)
  show ?thesis
    using read_header_outcomes [of "init [0x5a, 0x5a, 0x5a, 0x5a, 0, 0, 0, 0x11, 2, 0x41, 0x52, 0x4f, 0x52, 0x31, 0x2e, 0x30]"
            "init [0, 0, 0, 0x11, 2, 0x41, 0x52, 0x4f, 0x52, 0x31, 0x2e, 0x30]" 0 0 0 "0x11"
            "[2, 0x41, 0x52, 0x4f, 0x52, 0x31, 0x2e, 0x30]" 17]
          read_header_outcomes [of "(init [])\<lparr>read_length := 3\<rparr>"]
    by (simp add: wait_sync_init a b c d)
qed

text \<open>
  C3, as amended. A prefix \<open>G\<close> that contains no four consecutive \<open>0x5A\<close> bytes and does
  not itself end in \<open>0x5A\<close> is dropped by \<open>_read_header\<close>: parsing \<open>G\<close> followed by any
  further bytes (a valid envelope among them) gives the same result, message type and remaining
  count included, as parsing those bytes alone.
\<close>

theorem resync_skips_prefix:
  assumes "\<not> sublist [0x5a, 0x5a, 0x5a, 0x5a] G" and "G = [] \<or> last G \<noteq> 0x5a"
  shows "read_header (s\<lparr>chan_in := G @ env\<rparr>) = read_header (s\<lparr>chan_in := env\<rparr>)"
proof (cases "G = []")
  case True
  then show ?thesis by simp
next
  case False
  with assms wait_sync_skip [where c = 0 and G = G and s = s and env = env]
  have "wait_sync 0 (s\<lparr>chan_in := G @ env\<rparr>) = wait_sync 0 (s\<lparr>chan_in := env\<rparr>)"
    by simp
  then show ?thesis by (rule read_header_chan_cong) simp
qed

theorem resync_skips_prefix_witness:
  "read_header ((init [])\<lparr>chan_in := [1, 0x5a, 0x5a, 7] @ [0x5a, 0x5a, 0x5a, 0x5a, 0, 0, 0, 9, 2]\<rparr>)
     = Inr ((init [])\<lparr>read_length := 0, read_type := Some IDENT_REPLY\<rparr>)"
proof -
  have a: "\<not> sublist [0x5a, 0x5a, 0x5a, 0x5a] [1, 0x5a, 0x5a, 7 :: byte]"
    by (simp add: sublist_Cons_right)
  have b: "[1, 0x5a, 0x5a, 7 :: byte] = [] \<or> last [1, 0x5a, 0x5a, 7 :: byte] \<noteq> 0x5a"
    by simp
  have w: "wait_sync 0 ((init [])\<lparr>chan_in := [0x5a, 0x5a, 0x5a, 0x5a, 0, 0, 0, 9, 2]\<rparr>)
             = Inr ((init [])\<lparr>chan_in := [0, 0, 0, 9, 2]\<rparr>)"
    by (rule wait_sync_found)
  have c: "read_header ((init [])\<lparr>chan_in := [0x5a, 0x5a, 0x5a, 0x5a, 0, 0, 0, 9, 2]\<rparr>)
             = Inr ((init [])\<lparr>read_length := 0, read_type := Some IDENT_REPLY\<rparr>)"
    unfolding read_header_def w
    by (simp add: init_def chan_read_def unpack_l_def unpack_B_def be_uint_def to_signed_def
          D2HMsgType_of_def)
  show ?thesis
    using resync_skips_prefix [OF a b, where s = "init []"
            and env = "[0x5a, 0x5a, 0x5a, 0x5a, 0, 0, 0, 9, 2]"] c
    by simp
qed

text \<open>
  C3 as stated fails: the one-byte prefix \<open>0x5A\<close> contains no four consecutive \<open>0x5A\<close>
  bytes, yet it completes the synchronization sequence one byte early, so that the envelope of
  an empty \<open>IDENT_REPLY\<close> is read as a \<open>KERNEL_EXCEPTION\<close> with 1509949431 bytes remaining.
\<close>

theorem resync_fails_on_sync_byte_prefix:
  "\<not> sublist [0x5a, 0x5a, 0x5a, 0x5a] [0x5a :: byte] \<and>
   read_header (init ([0x5a] @ [0x5a, 0x5a, 0x5a, 0x5a, 0, 0, 0, 9, 2]))
     = Inr ((init [2])\<lparr>read_length := 1509949431, read_type := Some KERNEL_EXCEPTION\<rparr>) \<and>
   read_header (init [0x5a, 0x5a, 0x5a, 0x5a, 0, 0, 0, 9, 2])
     = Inr ((init [])\<lparr>read_length := 0, read_type := Some IDENT_REPLY\<rparr>)"
proof -
  have a: "\<not> sublist [0x5a, 0x5a, 0x5a, 0x5a] [0x5a :: byte]"
    by (simp add: sublist_Cons_right)
  have w1: "wait_sync 0 (init [0x5a, 0x5a, 0x5a, 0x5a, 0x5a, 0, 0, 0, 9, 2])
              = Inr (init [0x5a, 0, 0, 0, 9, 2])"
    by (rule wait_sync_init)
  have w2: "wait_sync 0 (init [0x5a, 0x5a, 0x5a, 0x5a, 0, 0, 0, 9, 2]) = Inr (init [0, 0, 0, 9, 2])"
    by (rule wait_sync_init)
  have b: "read_header (init [0x5a, 0x5a, 0x5a, 0x5a, 0x5a, 0, 0, 0, 9, 2])
     = Inr ((init [2])\<lparr>read_length := 1509949431, read_type := Some KERNEL_EXCEPTION\<rparr>)"
    unfolding read_header_def w1
    by (simp add: init_def chan_read_def unpack_l_def unpack_B_def be_uint_def to_signed_def
          D2HMsgType_of_def)
  have c: "read_header (init [0x5a, 0x5a, 0x5a, 0x5a, 0, 0, 0, 9, 2])
     = Inr ((init [])\<lparr>read_length := 0, read_type := Some IDENT_REPLY\<rparr>)"
    unfolding read_header_def w2
    by (simp add: init_def chan_read_def unpack_l_def unpack_B_def be_uint_def to_signed_def
          D2HMsgType_of_def)
  show ?thesis using a b c by simp
qed

text \<open>
  C2, as amended. For every host-to-device type \<open>T\<close> and chunks whose concatenation \<open>P\<close> has
  \<open>9 + |P|\<close> within the signed 32-bit length field, header, appends and flush succeed and write
  one envelope \<open>w\<close>; a reader with nothing left to drain that is given \<open>w\<close> parses it with
  \<open>_read_header\<close> to the device-to-host type of the same wire value as \<open>T\<close>, and
  \<open>_read_chunk(|P|)\<close> then returns \<open>P\<close> and leaves \<open>_read_length = 0\<close>.
\<close>

theorem envelope_roundtrip:
  assumes "9 + int (length (concat chunks)) \<le> 2 ^ 31 - 1"
  shows "\<exists>w s'. write_flush (foldl (\<lambda>s c. write_chunk c s) (write_header T s0) chunks) = Inr s'
          \<and> chan_out s' = chan_out s0 @ w
          \<and> (\<forall>r rest. read_length r \<le> 0 \<and> chan_in r = w @ rest \<longrightarrow>
               (\<exists>r1 r2 ty. read_header r = Inr r1 \<and> read_type r1 = Some ty
                   \<and> d2h_value ty = h2d_value T
                   \<and> read_chunk (int (length (concat chunks))) r1 = Inr (concat chunks, r2)
                   \<and> read_length r2 = 0 \<and> chan_in r2 = rest))"
proof -
  let ?P = "concat chunks"
  let ?L = "9 + int (length ?P)"
  let ?b = "foldl (\<lambda>s c. write_chunk c s) (write_header T s0) chunks"
  let ?w = "[0x5a, 0x5a, 0x5a, 0x5a] @ be_bytes 4 ?L @ [word_of_int (h2d_value T)] @ ?P"
  have wb: "write_buffer ?b = chunks" "write_type ?b = Some T" "chan_out ?b = chan_out s0"
    by (induction chunks rule: rev_induct) (simp_all add: write_header_def write_chunk_def)
  have sync: "be_bytes 4 0x5a5a5a5a = [0x5a, 0x5a, 0x5a, 0x5a]"
    by (simp add: be_bytes_4)
  have hdr: "pack_llB 0x5a5a5a5a ?L (h2d_value T)
              = Inr ([0x5a, 0x5a, 0x5a, 0x5a] @ be_bytes 4 ?L @ [word_of_int (h2d_value T)])"
    using assms h2d_value_range [of T] sync
    by (simp add: pack_llB_def pack_l_def pack_B_def del: be_bytes.simps) simp
  have flush: "write_flush ?b = Inr (?b\<lparr>chan_out := chan_out s0 @ ?w\<rparr>)"
    by (simp add: write_flush_eq wb hdr)
  have rd: "\<exists>r1 r2 ty. read_header r = Inr r1 \<and> read_type r1 = Some ty
                   \<and> d2h_value ty = h2d_value T
                   \<and> read_chunk (int (length ?P)) r1 = Inr (?P, r2)
                   \<and> read_length r2 = 0 \<and> chan_in r2 = rest"
    if r: "read_length r \<le> 0" "chan_in r = ?w @ rest" for r rest
  proof -
    obtain ty where ty: "D2HMsgType_of (h2d_value T) = Some ty" "d2h_value ty = h2d_value T"
      using D2H_of_h2d by blast
    have r_eq: "r = r\<lparr>chan_in := 0x5a # 0x5a # 0x5a # 0x5a # (be_bytes 4 ?L @ word_of_int (h2d_value T) # ?P @ rest)\<rparr>"
      using r(2) by simp
    have ws: "wait_sync 0 r = Inr (r\<lparr>chan_in := be_bytes 4 ?L @ word_of_int (h2d_value T) # ?P @ rest\<rparr>)"
      by (subst r_eq) (rule wait_sync_found)
    have len: "to_signed 32 (be_uint (be_bytes 4 ?L)) = ?L"
      using assms to_signed_mod [of 32 ?L] by (simp add: be_uint_be_bytes)
    have t: "uint (word_of_int (h2d_value T) :: byte) = h2d_value T"
      using h2d_value_range [of T] by (simp add: uint_word_of_int take_bit_eq_mod)
    let ?r1 = "r\<lparr>chan_in := ?P @ rest, read_length := ?L - 9, read_type := Some ty\<rparr>"
    have h: "read_header r = Inr ?r1"
      using read_header_after_sync_bytes [OF r(1) ws, of "be_bytes 4 ?L" "word_of_int (h2d_value T)" "?P @ rest"]
      by (simp add: length_be_bytes len t ty Let_def del: be_bytes.simps)
    have c: "read_chunk (int (length ?P)) ?r1 = Inr (?P, ?r1\<lparr>read_length := 0, chan_in := rest\<rparr>)"
      by (simp add: read_chunk_def chan_read_def)
    show ?thesis using h c ty by auto
  qed
  show ?thesis
    using flush rd by (intro exI [of _ ?w] exI [of _ "?b\<lparr>chan_out := chan_out s0 @ ?w\<rparr>"]) simp
qed

theorem envelope_roundtrip_witness:
  "\<exists>r1 r2 ty. read_header (init [0x5a, 0x5a, 0x5a, 0x5a, 0, 0, 0, 12, 10, 1, 2, 3]) = Inr r1
      \<and> read_type r1 = Some ty \<and> d2h_value ty = 10
      \<and> read_chunk 3 r1 = Inr ([1, 2, 3], r2) \<and> read_length r2 = 0 \<and> chan_in r2 = []"
proof -
  have b: "9 + int (length (concat [[1, 2], [3 :: byte]])) \<le> 2 ^ 31 - 1"
    by simp
  have f: "write_flush (foldl (\<lambda>s c. write_chunk c s) (write_header FLASH_WRITE_REQUEST (init []))
             [[1, 2], [3]])
           = Inr ((init [])\<lparr>write_type := Some FLASH_WRITE_REQUEST, write_buffer := [[1, 2], [3]],
                   chan_out := [0x5a, 0x5a, 0x5a, 0x5a, 0, 0, 0, 12, 10, 1, 2, 3]\<rparr>)"
    by (simp add: write_flush_eq write_chunk_def write_header_def init_def pack_llB_def
          pack_l_def pack_B_def be_bytes_4)
  have r: "read_length (init xs) \<le> 0" "chan_in (init xs) = xs" "chan_out (init xs) = []" for xs
    by (simp_all add: init_def)
  from envelope_roundtrip [OF b, of FLASH_WRITE_REQUEST "init []"] f r
  show ?thesis by auto
qed

text \<open>
  C2 as stated fails for a payload of \<open>2^31 - 9\<close> bytes: the total length no longer fits the
  signed 32-bit field and \<open>struct.pack\<close> refuses it, so nothing is written.
\<close>

theorem envelope_too_long:
  "write_flush (write_chunk (replicate 2147483639 0) (write_header LOAD_LIBRARY (init [])))
     = Inl StructError"
  by (simp add: write_flush_eq write_chunk_def write_header_def init_def pack_llB_def pack_l_def)

subsection \<open>Sending tagged values\<close>

lemma pop0_Cons [simp]: "pop0 (t # ts) = Inr (t, ts)" and pop0_Nil [simp]: "pop0 [] = Inl IndexError"
  by (simp_all add: pop0_def)

lemma skip_rpc_value_pops_one: "skip_rpc_value (t # G) = Inr G"
  by (simp add: int_eq_str_def)

lemma send_list_eq:
  "chr_eq tag CHR ''l'' \<Longrightarrow> send_rpc_value (tag # G) (PyList elts) root function s =
     (case write_int32 (int (length elts)) s of
        Inl e \<Rightarrow> Inl e
      | Inr s1 \<Rightarrow>
          (case send_list_elts G elts root function s1 of
             Inl e \<Rightarrow> Inl e
           | Inr s2 \<Rightarrow>
               (case skip_rpc_value G of
                  Inl e \<Rightarrow> Inl e
                | Inr tags1 \<Rightarrow> Inr (tags1, s2))))"
  by (subst send_rpc_value.simps) (simp add: chr_eq_def del: skip_rpc_value.simps)

lemma send_int32_eq:
  "chr_eq tag CHR ''i'' \<Longrightarrow> send_rpc_value (tag # G) (PyInt n) root function s =
     (if - (2 ^ 31) < n \<and> n < 2 ^ 31 - 1
      then Inr (G, s\<lparr>write_buffer := write_buffer s @ [be_bytes 4 n]\<rparr>)
      else Inl (RPCReturnValueError (PyInt n) ExpInt32 function root))"
  by (subst send_rpc_value.simps) (simp add: chr_eq_def check_def write_int32_def pack_l_def del: be_bytes.simps)

lemma send_range_eq:
  "chr_eq tag CHR ''r'' \<Longrightarrow> send_rpc_value (tag # G) (PyRange a b c) root function s =
     (case send_rpc_value G (PyInt a) root function s of
        Inl e \<Rightarrow> Inl e
      | Inr (t1, s1) \<Rightarrow>
          (case send_rpc_value G (PyInt b) root function s1 of
             Inl e \<Rightarrow> Inl e
           | Inr (t2, s2) \<Rightarrow>
               (case send_rpc_value G (PyInt c) root function s2 of
                  Inl e \<Rightarrow> Inl e
                | Inr (t3, s3) \<Rightarrow> Inr (G, s3))))"
  by (subst send_rpc_value.simps) (simp add: chr_eq_def)

lemma send_range_tags:
  "send_rpc_value (of_char CHR ''r'' # G) (PyRange a b c) root function s = Inr (tags', s') \<Longrightarrow> tags' = G"
  by (auto simp: send_range_eq chr_eq_def split: sum.splits)

subsection \<open>Claims about sending tagged values\<close>

text \<open>
  C8, as the code has it. When \<open>_send_rpc_value\<close> returns for a list of any length (the
  empty list included) sent against a tag stream that begins with \<open>"l"\<close> followed by a
  sub-grammar, the caller's tag stream is the sub-grammar without its first byte, whatever
  that byte is: \<open>_skip_rpc_value\<close> compares the integer that \<open>tags.pop(0)\<close> gives with the
  strings \<open>"t"\<close>, \<open>"l"\<close> and \<open>"r"\<close>, which it never equals, so it removes one byte and never
  descends. For a sub-grammar of one tag this is the position past the sub-grammar; for a
  tuple, list or range sub-grammar the caller is left inside it.
\<close>

theorem send_list_skips_one_tag:
  assumes "send_rpc_value (of_char CHR ''l'' # t # G) (PyList elts) root function s = Inr (tags', s')"
  shows "tags' = G"
  using assms
  by (auto simp: send_list_eq chr_eq_def skip_rpc_value_pops_one split: sum.splits
           simp del: skip_rpc_value.simps)

text \<open>
  The list \<open>[(1, 2)]\<close> sent against the tags \<open>l\<close>, \<open>t\<close>, 2, \<open>i\<close>, \<open>i\<close>, \<open>n\<close> leaves the
  caller at 2, \<open>i\<close>, \<open>i\<close>, \<open>n\<close>, where the skip pass of the specification on the sub-grammar
  gives \<open>n\<close>; so the tuple \<open>([(1, 2)], None)\<close> sent against \<open>t\<close>, 2, \<open>l\<close>, \<open>t\<close>, 2, \<open>i\<close>,
  \<open>i\<close>, \<open>n\<close> fails on the byte 2 taken for a tag. On the sub-grammar \<open>i\<close> both agree.
\<close>

theorem send_list_skips_one_tag_witness:
  "send_rpc_value [of_char CHR ''l'', of_char CHR ''t'', 2, of_char CHR ''i'', of_char CHR ''i'',
                   of_char CHR ''n'']
       (PyList [PyTuple [PyInt 1, PyInt 2]]) (PyList [PyTuple [PyInt 1, PyInt 2]]) (PyObject 7)
       (write_header RPC_REPLY (init []))
     = Inr ([2, of_char CHR ''i'', of_char CHR ''i'', of_char CHR ''n''],
            (init [])\<lparr>write_type := Some RPC_REPLY,
                      write_buffer := [[0, 0, 0, 1], [0, 0, 0, 1], [0, 0, 0, 2]]\<rparr>)
   \<and> spec_skip [of_char CHR ''t'', 2, of_char CHR ''i'', of_char CHR ''i'', of_char CHR ''n'']
     = Inr [of_char CHR ''n'']
   \<and> skip_rpc_value [of_char CHR ''t'', 2, of_char CHR ''i'', of_char CHR ''i'', of_char CHR ''n'']
     = Inr [2, of_char CHR ''i'', of_char CHR ''i'', of_char CHR ''n'']
   \<and> send_rpc_value [of_char CHR ''t'', 2, of_char CHR ''l'', of_char CHR ''t'', 2,
                     of_char CHR ''i'', of_char CHR ''i'', of_char CHR ''n'']
       (PyTuple [PyList [PyTuple [PyInt 1, PyInt 2]], PyNone])
       (PyTuple [PyList [PyTuple [PyInt 1, PyInt 2]], PyNone]) (PyObject 7)
       (write_header RPC_REPLY (init []))
     = Inl (UnknownRPCTag 2)
   \<and> send_rpc_value [of_char CHR ''l'', of_char CHR ''i'', of_char CHR ''n'']
       (PyList []) (PyList []) (PyObject 7) (write_header RPC_REPLY (init []))
     = Inr ([of_char CHR ''n''],
            (init [])\<lparr>write_type := Some RPC_REPLY, write_buffer := [[0, 0, 0, 0]]\<rparr>)
   \<and> spec_skip [of_char CHR ''i'', of_char CHR ''n''] = Inr [of_char CHR ''n'']"
proof -
  have a: "send_rpc_value [of_char CHR ''l'', of_char CHR ''t'', 2, of_char CHR ''i'',
                           of_char CHR ''i'', of_char CHR ''n'']
       (PyList [PyTuple [PyInt 1, PyInt 2]]) (PyList [PyTuple [PyInt 1, PyInt 2]]) (PyObject 7)
       (write_header RPC_REPLY (init []))
     = Inr ([2, of_char CHR ''i'', of_char CHR ''i'', of_char CHR ''n''],
            (init [])\<lparr>write_type := Some RPC_REPLY,
                      write_buffer := [[0, 0, 0, 1], [0, 0, 0, 1], [0, 0, 0, 2]]\<rparr>)"
    by code_simp
  have b: "send_rpc_value [of_char CHR ''l'', of_char CHR ''i'', of_char CHR ''n'']
       (PyList []) (PyList []) (PyObject 7) (write_header RPC_REPLY (init []))
     = Inr ([of_char CHR ''n''],
            (init [])\<lparr>write_type := Some RPC_REPLY, write_buffer := [[0, 0, 0, 0]]\<rparr>)"
    by code_simp
  have c: "spec_skip [of_char CHR ''t'', 2, of_char CHR ''i'', of_char CHR ''i'', of_char CHR ''n'']
     = Inr [of_char CHR ''n'']"
    "spec_skip [of_char CHR ''i'', of_char CHR ''n''] = Inr [of_char CHR ''n'']"
    by code_simp+
  have d: "send_rpc_value [of_char CHR ''t'', 2, of_char CHR ''l'', of_char CHR ''t'', 2,
                     of_char CHR ''i'', of_char CHR ''i'', of_char CHR ''n'']
       (PyTuple [PyList [PyTuple [PyInt 1, PyInt 2]], PyNone])
       (PyTuple [PyList [PyTuple [PyInt 1, PyInt 2]], PyNone]) (PyObject 7)
       (write_header RPC_REPLY (init []))
     = Inl (UnknownRPCTag 2)"
    by code_simp
  from send_list_skips_one_tag [OF a] send_list_skips_one_tag [OF b] a b c d show ?thesis
    by (simp add: skip_rpc_value_pops_one del: skip_rpc_value.simps)
qed

text \<open>
  C5 at the two ends of the signed 32-bit range. Sent against tag \<open>"i"\<close>, the values
  \<open>2^31 - 1\<close> and \<open>-2^31\<close> are refused with the return-value type error, although
  \<open>struct.pack(">l", _)\<close> encodes both: the test of the source is
  \<open>-2**31 < value < 2**31-1\<close>, strict on both sides.
\<close>

theorem send_int32_rejects_extremes:
  "send_rpc_value [of_char CHR ''i''] (PyInt 2147483647) root function s
     = Inl (RPCReturnValueError (PyInt 2147483647) ExpInt32 function root)
   \<and> send_rpc_value [of_char CHR ''i''] (PyInt (- 2147483648)) root function s
     = Inl (RPCReturnValueError (PyInt (- 2147483648)) ExpInt32 function root)
   \<and> pack_l 2147483647 = Inr [0x7f, 0xff, 0xff, 0xff]
   \<and> pack_l (- 2147483648) = Inr [0x80, 0, 0, 0]"
  by (simp add: send_int32_eq chr_eq_def pack_l_def be_bytes_4)

text \<open>
  C1 on a concrete range. After \<open>range(0, 3, 1)\<close> has been sent against the tag stream
  \<open>"ri"\<close>, start, stop and step are written, each from the saved sub-grammar \<open>"i"\<close>, but the
  caller's tag stream is still \<open>"i"\<close>: it has not moved past the sub-grammar. Hence the tuple
  \<open>(range(0, 3, 1), None)\<close> sent against the tags \<open>t\<close>, 2, \<open>r\<close>, \<open>i\<close>, \<open>n\<close> fails: \<open>None\<close> meets the tag \<open>"i"\<close>
  that the range left behind.
\<close>

theorem send_range_leaves_parent_stream:
  "send_rpc_value [of_char CHR ''r'', of_char CHR ''i''] (PyRange 0 3 1) (PyRange 0 3 1) (PyObject 7)
       (write_header RPC_REPLY (init []))
     = Inr ([of_char CHR ''i''],
            (init [])\<lparr>write_type := Some RPC_REPLY,
                      write_buffer := [[0, 0, 0, 0], [0, 0, 0, 3], [0, 0, 0, 1]]\<rparr>)
   \<and> send_rpc_value [of_char CHR ''t'', 2, of_char CHR ''r'', of_char CHR ''i'', of_char CHR ''n'']
       (PyTuple [PyRange 0 3 1, PyNone]) (PyTuple [PyRange 0 3 1, PyNone]) (PyObject 7)
       (write_header RPC_REPLY (init []))
     = Inl (RPCReturnValueError PyNone ExpInt32 (PyObject 7) (PyTuple [PyRange 0 3 1, PyNone]))"
proof -
  have t: "chr_eq tag CHR ''t'' \<Longrightarrow> send_rpc_value (tag # len # G) (PyTuple elts) root fn s =
      (if uint len \<noteq> int (length elts)
       then Inl (RPCReturnValueError (PyTuple elts) (ExpTupleOf (uint len)) fn root)
       else send_tuple_elts G elts root fn s)" for tag len G elts root fn s
    by (subst send_rpc_value.simps) (simp add: chr_eq_def)
  have n: "chr_eq tag CHR ''i'' \<Longrightarrow> send_rpc_value (tag # G) PyNone root fn s =
       Inl (RPCReturnValueError PyNone ExpInt32 fn root)" for tag G root fn s
    by (subst send_rpc_value.simps) (simp add: chr_eq_def)
  show ?thesis
    by (simp add: t n send_range_eq send_int32_eq chr_eq_def be_bytes_4 write_header_def init_def)
qed

subsection \<open>Claims about the control operations\<close>

text \<open>
  C6, as amended. Let the device answer \<open>IDENT_REQUEST\<close> with an \<open>IDENT_REPLY\<close> envelope
  whose body has at least four bytes. If the first four differ from \<open>"AROR"\<close>, \<open>check_ident\<close>
  fails with the unsupported-device error. If they are \<open>"AROR"\<close> and the rest of the body
  decodes as UTF-8, \<open>check_ident\<close> completes with the whole body consumed and returns
  \<open>None\<close>: the gateware version decoded from the rest of the body is only compared with the
  software version, and logged in a warning when it differs from it with and without the
  suffix \<open>".dirty"\<close>.
\<close>

theorem check_ident_outcome:
  assumes "read_length s \<le> 0"
      and "chan_in s = [0x5a, 0x5a, 0x5a, 0x5a] @ be_bytes 4 (9 + int (length body)) @ [2] @ body @ rest"
      and "9 + int (length body) \<le> 2 ^ 31 - 1"
      and "4 \<le> length body"
  shows "check_ident ext s =
     (if take 4 body \<noteq> [0x41, 0x52, 0x4f, 0x52] then Inl (UnsupportedDevice (take 4 body))
      else if \<not> utf8_ok ext (drop 4 body) then Inl UnicodeDecodeError
      else Inr (PyNone,
             s\<lparr>write_type := Some IDENT_REQUEST, write_buffer := [],
               chan_out := chan_out s @ [0x5a, 0x5a, 0x5a, 0x5a, 0, 0, 0, 9, 3],
               read_type := Some IDENT_REPLY, read_length := 0, chan_in := rest,
               warnings := warnings s @
                 (if drop 4 body \<noteq> software_version ext \<and>
                     drop 4 body @ map of_char ''.dirty'' \<noteq> software_version ext
                  then [(drop 4 body, software_version ext)] else [])\<rparr>))"
  using assms by (rule check_ident_eq)

theorem check_ident_outcome_witness:
  "check_ident (test_externals [0x31, 0x2e, 0x31] [] (Inr PyNone))
      (init [0x5a, 0x5a, 0x5a, 0x5a, 0, 0, 0, 0x10, 2, 0x41, 0x52, 0x4f, 0x52, 0x31, 0x2e, 0x30])
     = Inr (PyNone,
         (init [])\<lparr>write_type := Some IDENT_REQUEST,
                   chan_out := [0x5a, 0x5a, 0x5a, 0x5a, 0, 0, 0, 9, 3],
                   read_type := Some IDENT_REPLY,
                   warnings := [([0x31, 0x2e, 0x30], [0x31, 0x2e, 0x31])]\<rparr>)
   \<and> check_ident (test_externals [0x31, 0x2e, 0x30] [] (Inr PyNone))
      (init [0x5a, 0x5a, 0x5a, 0x5a, 0, 0, 0, 0x10, 2, 0x41, 0x52, 0x4f, 0x53, 0x31, 0x2e, 0x30])
     = Inl (UnsupportedDevice [0x41, 0x52, 0x4f, 0x53])"
proof -
  have a: "read_length (init xs) \<le> 0" for xs
    by (simp add: init_def)
  have b1: "chan_in (init [0x5a, 0x5a, 0x5a, 0x5a, 0, 0, 0, 0x10, 2, 0x41, 0x52, 0x4f, 0x52, 0x31, 0x2e, 0x30])
      = [0x5a, 0x5a, 0x5a, 0x5a] @ be_bytes 4 (9 + int (length [0x41, 0x52, 0x4f, 0x52, 0x31, 0x2e, 0x30 :: byte]))
          @ [2] @ [0x41, 0x52, 0x4f, 0x52, 0x31, 0x2e, 0x30] @ []"
    by (simp add: init_def be_bytes_4)
  have b2: "chan_in (init [0x5a, 0x5a, 0x5a, 0x5a, 0, 0, 0, 0x10, 2, 0x41, 0x52, 0x4f, 0x53, 0x31, 0x2e, 0x30])
      = [0x5a, 0x5a, 0x5a, 0x5a] @ be_bytes 4 (9 + int (length [0x41, 0x52, 0x4f, 0x53, 0x31, 0x2e, 0x30 :: byte]))
          @ [2] @ [0x41, 0x52, 0x4f, 0x53, 0x31, 0x2e, 0x30] @ []"
    by (simp add: init_def be_bytes_4)
  have c1: "9 + int (length [0x41, 0x52, 0x4f, 0x52, 0x31, 0x2e, 0x30 :: byte]) \<le> 2 ^ 31 - 1"
           "4 \<le> length [0x41, 0x52, 0x4f, 0x52, 0x31, 0x2e, 0x30 :: byte]"
    by simp_all
  have c2: "9 + int (length [0x41, 0x52, 0x4f, 0x53, 0x31, 0x2e, 0x30 :: byte]) \<le> 2 ^ 31 - 1"
           "4 \<le> length [0x41, 0x52, 0x4f, 0x53, 0x31, 0x2e, 0x30 :: byte]"
    by simp_all
  show ?thesis
    using check_ident_outcome [OF a b1 c1,
            where ext = "test_externals [0x31, 0x2e, 0x31] [] (Inr PyNone)"]
          check_ident_outcome [OF a b2 c2,
            where ext = "test_externals [0x31, 0x2e, 0x30] [] (Inr PyNone)"]
    by (simp add: test_externals_def init_def)
qed

text \<open>
  C6 as stated fails: on the reply of the identity scenario, body \<open>"AROR"\<close> followed by
  \<open>"1.0"\<close>, with software version \<open>"1.0"\<close>, \<open>check_ident\<close> returns \<open>None\<close>, not the gateware
  version string.
\<close>

theorem check_ident_returns_none:
  "check_ident (test_externals [0x31, 0x2e, 0x30] [] (Inr PyNone))
      (init [0x5a, 0x5a, 0x5a, 0x5a, 0, 0, 0, 0x10, 2, 0x41, 0x52, 0x4f, 0x52, 0x31, 0x2e, 0x30])
     = Inr (PyNone,
         (init [])\<lparr>write_type := Some IDENT_REQUEST,
                   chan_out := [0x5a, 0x5a, 0x5a, 0x5a, 0, 0, 0, 9, 3],
                   read_type := Some IDENT_REPLY\<rparr>)"
proof -
  have a: "read_length (init xs) \<le> 0" for xs
    by (simp add: init_def)
  have b: "chan_in (init [0x5a, 0x5a, 0x5a, 0x5a, 0, 0, 0, 0x10, 2, 0x41, 0x52, 0x4f, 0x52, 0x31, 0x2e, 0x30])
      = [0x5a, 0x5a, 0x5a, 0x5a] @ be_bytes 4 (9 + int (length [0x41, 0x52, 0x4f, 0x52, 0x31, 0x2e, 0x30 :: byte]))
          @ [2] @ [0x41, 0x52, 0x4f, 0x52, 0x31, 0x2e, 0x30] @ []"
    by (simp add: init_def be_bytes_4)
  have c: "9 + int (length [0x41, 0x52, 0x4f, 0x52, 0x31, 0x2e, 0x30 :: byte]) \<le> 2 ^ 31 - 1"
          "4 \<le> length [0x41, 0x52, 0x4f, 0x52, 0x31, 0x2e, 0x30 :: byte]"
    by simp_all
  show ?thesis
    using check_ident_eq [OF a b c,
            where ext = "test_externals [0x31, 0x2e, 0x30] [] (Inr PyNone)"]
    by (simp add: test_externals_def init_def)
qed

subsection \<open>Receiving tagged values\<close>

lemma last_wins_Cons:
  "last_wins (v # vs) =
     (case v of PyKeyword name x \<Rightarrow> [name \<mapsto> x] ++ last_wins vs | _ \<Rightarrow> last_wins vs)"
  by (cases v) (simp_all add: last_wins_def)

lemma positional_Cons:
  "positional (v # vs) = (if is_keyword v then positional vs else v # positional vs)"
  by (simp add: positional_def)

lemma receive_rpc_args_loop_collates:
  "receive_rpc_values ext n s = Inr (vs, s1) \<Longrightarrow> PySentinel \<notin> set vs \<Longrightarrow>
   receive_rpc_value ext s1 = Inr (PySentinel, s2) \<Longrightarrow>
   receive_rpc_args_loop ext args kwargs s = Inr ((args @ positional vs, kwargs ++ last_wins vs), s2)"
proof (induction n arbitrary: s vs args kwargs)
  case 0
  then show ?case
    by (subst receive_rpc_args_loop.simps) (simp add: positional_def last_wins_def)
next
  case (Suc n)
  from Suc.prems(1) obtain v sa vs' where
    v: "receive_rpc_value ext s = Inr (v, sa)" and
    vs': "receive_rpc_values ext n sa = Inr (vs', s1)" and
    vs: "vs = v # vs'"
    by (auto split: sum.splits)
  from Suc.prems(2) vs have ns: "v \<noteq> PySentinel" "PySentinel \<notin> set vs'"
    by auto
  note IH = Suc.IH [OF vs' ns(2) Suc.prems(3)]
  show ?case
  proof (cases v)
    case (PyKeyword name x)
    have step: "receive_rpc_args_loop ext args kwargs s =
                receive_rpc_args_loop ext args (kwargs(name \<mapsto> x)) sa"
      using v PyKeyword by (subst receive_rpc_args_loop.simps) simp
    have m: "kwargs ++ last_wins vs = kwargs(name \<mapsto> x) ++ last_wins vs'"
      unfolding vs PyKeyword last_wins_Cons pyval.case
      by (simp add: map_add_assoc [symmetric])
    have p: "positional vs = positional vs'"
      unfolding vs PyKeyword by (simp add: positional_Cons)
    show ?thesis
      unfolding step m p by (rule IH)
  qed (use v vs ns(1) IH [of "args @ [v]" kwargs] in
        \<open>subst receive_rpc_args_loop.simps, simp add: positional_Cons last_wins_Cons\<close>)+
qed

subsection \<open>Claims about receiving tagged values\<close>

text \<open>
  C9. Let \<open>n\<close> successive calls of \<open>_receive_rpc_value\<close> return the values \<open>vs\<close>, positional
  values and \<open>RPCKeyword\<close>s in any mixture and none of them the sentinel, and let the next call
  return the sentinel that the tag \<open>0\<close> stands for. Then \<open>_receive_rpc_args\<close> returns the
  positional values of \<open>vs\<close> in the order received, and the mapping from each keyword name
  to the value of its last occurrence in \<open>vs\<close>, and leaves the driver where the sentinel
  left it.
\<close>

theorem receive_rpc_args_collates:
  assumes "receive_rpc_values ext n s = Inr (vs, s1)"
      and "PySentinel \<notin> set vs"
      and "receive_rpc_value ext s1 = Inr (PySentinel, s2)"
  shows "receive_rpc_args ext s = Inr ((positional vs, last_wins vs), s2)"
  using receive_rpc_args_loop_collates [OF assms, of "[]" Map.empty]
  by (simp add: receive_rpc_args_def)

theorem receive_rpc_args_collates_witness:
  "receive_rpc_args (test_externals [] [] (Inr PyNone))
      ((init [0x69, 0, 0, 0, 2,
              0x6b, 0, 0, 0, 2, 0x61, 0, 0x69, 0, 0, 0, 5,
              0x6b, 0, 0, 0, 2, 0x61, 0, 0x6e,
              0x69, 0, 0, 0, 3,
              0])\<lparr>read_length := 31\<rparr>)
     = Inr (([PyWrapInt 2 32, PyWrapInt 3 32],
             last_wins [PyWrapInt 2 32, PyKeyword [0x61] (PyWrapInt 5 32),
                        PyKeyword [0x61] PyNone, PyWrapInt 3 32]),
            (init [])\<lparr>read_length := 0\<rparr>)
   \<and> last_wins [PyWrapInt 2 32, PyKeyword [0x61] (PyWrapInt 5 32),
                 PyKeyword [0x61] PyNone, PyWrapInt 3 32] [0x61] = Some PyNone"
proof -
  have a: "receive_rpc_values (test_externals [] [] (Inr PyNone)) 4
      ((init [0x69, 0, 0, 0, 2,
              0x6b, 0, 0, 0, 2, 0x61, 0, 0x69, 0, 0, 0, 5,
              0x6b, 0, 0, 0, 2, 0x61, 0, 0x6e,
              0x69, 0, 0, 0, 3,
              0])\<lparr>read_length := 31\<rparr>)
    = Inr ([PyWrapInt 2 32, PyKeyword [0x61] (PyWrapInt 5 32), PyKeyword [0x61] PyNone,
            PyWrapInt 3 32],
           (init [0])\<lparr>read_length := 1\<rparr>)"
    by code_simp
  have b: "PySentinel \<notin> set [PyWrapInt 2 32, PyKeyword [0x61] (PyWrapInt 5 32),
                              PyKeyword [0x61] PyNone, PyWrapInt 3 32]"
    by simp
  have c: "receive_rpc_value (test_externals [] [] (Inr PyNone)) ((init [0])\<lparr>read_length := 1\<rparr>)
             = Inr (PySentinel, (init [])\<lparr>read_length := 0\<rparr>)"
    by code_simp
  from receive_rpc_args_collates [OF a b c] show ?thesis
    by (simp add: positional_def last_wins_def)
qed

subsection \<open>Serving a remote procedure call\<close>

lemma and_then_Inr: "and_then m f = Inr y \<longleftrightarrow> (\<exists>x. m = Inr x \<and> f x = Inr y)"
  by (cases m) (simp_all add: and_then_def)

lemma receive_rpc_args_loop_step:
  "receive_rpc_value ext s = Inr (v, s1) \<Longrightarrow>
   receive_rpc_args_loop ext args kwargs s =
     (if v = PySentinel then Inr ((args, kwargs), s1)
      else receive_rpc_args_loop ext (if is_keyword v then args else args @ [v])
             (case v of PyKeyword name x \<Rightarrow> kwargs(name \<mapsto> x) | _ \<Rightarrow> kwargs) s1)"
  by (subst receive_rpc_args_loop.simps) (cases v; simp)

lemma receive_rpc_args_loop_chan_out:
  "receive_rpc_args_loop ext args kwargs s = Inr (r, s') \<Longrightarrow> chan_out s' = chan_out s"
proof (induction "length (chan_in s)" arbitrary: s args kwargs rule: less_induct)
  case less
  from less.prems obtain v s1 where v: "receive_rpc_value ext s = Inr (v, s1)"
    by (subst (asm) receive_rpc_args_loop.simps) (auto split: sum.splits)
  note c = receive_rpc_value_chan_out [OF v] and l = receive_rpc_value_length [OF v]
  show ?case
  proof (cases "v = PySentinel")
    case True
    with less.prems c show ?thesis
      unfolding receive_rpc_args_loop_step [OF v] by simp
  next
    case False
    with less.prems have "receive_rpc_args_loop ext (if is_keyword v then args else args @ [v])
             (case v of PyKeyword name x \<Rightarrow> kwargs(name \<mapsto> x) | _ \<Rightarrow> kwargs) s1 = Inr (r, s')"
      unfolding receive_rpc_args_loop_step [OF v] by simp
    from less.hyps [OF l this] c show ?thesis by simp
  qed
qed

lemma keeps_refl: "keeps s s"
  by (simp add: keeps_def)

lemma keeps_trans: "keeps s s1 \<Longrightarrow> keeps s1 s2 \<Longrightarrow> keeps s s2"
  by (simp add: keeps_def)

lemma write_int32_keeps: "write_int32 v s = Inr s' \<Longrightarrow> keeps s s'"
  by (auto simp: write_int32_def keeps_def split: sum.splits)

lemma write_int64_keeps: "write_int64 v s = Inr s' \<Longrightarrow> keeps s s'"
  by (auto simp: write_int64_def keeps_def split: sum.splits)

lemma write_bytes_keeps: "write_bytes v s = Inr s' \<Longrightarrow> keeps s s'"
  by (auto simp: write_bytes_def write_int32_def keeps_def split: sum.splits)

lemma write_string_keeps: "write_string v s = Inr s' \<Longrightarrow> keeps s s'"
  by (simp add: write_string_def write_bytes_keeps)

lemma for_each_keeps:
  assumes "\<And>x s s'. body x s = Inr s' \<Longrightarrow> keeps s s'"
  shows "for_each body xs s = Inr s' \<Longrightarrow> keeps s s'"
proof (induction xs arbitrary: s)
  case Nil
  then show ?case by (simp add: keeps_refl)
next
  case (Cons x xs)
  then obtain s1 where "body x s = Inr s1" "for_each body xs s1 = Inr s'"
    by (auto simp: and_then_Inr)
  with assms Cons.IH show ?case by (blast intro: keeps_trans)
qed

lemma write_string_of_keeps: "write_string_of v s = Inr s' \<Longrightarrow> keeps s s'"
  by (auto simp: write_string_of_def and_then_Inr dest: write_string_keeps)

lemma write_int32_of_keeps: "write_int32_of ext v s = Inr s' \<Longrightarrow> keeps s s'"
  by (auto simp: write_int32_of_def split: sum.splits dest: write_int32_keeps)

lemma write_core_exception_keeps: "write_core_exception ext core s = Inr s' \<Longrightarrow> keeps s s'"
proof -
  assume a: "write_core_exception ext core s = Inr s'"
  have p: "keeps sa sb" if "and_then (list_get (core_param core) index) (\<lambda>p. write_int64 p sa) = Inr sb"
    for index sa sb
    using that by (auto simp: and_then_Inr dest: write_int64_keeps)
  from a obtain s1 s2 s3 s4 s5 s6 where
    "write_string (core_name core) s = Inr s1"
    "write_string (core_message core) s1 = Inr s2"
    "for_each (\<lambda>index sa. and_then (list_get (core_param core) index) (\<lambda>p. write_int64 p sa))
       [0, 1, 2] s2 = Inr s3"
    "write_string_of (last (core_traceback core) ! 0) s3 = Inr s4"
    "write_int32_of ext (last (core_traceback core) ! 1) s4 = Inr s5"
    "write_int32_of ext (last (core_traceback core) ! 2) s5 = Inr s6"
    "write_string_of (last (core_traceback core) ! 3) s6 = Inr s'"
    by (auto simp: write_core_exception_def and_then_Inr split: if_splits
             simp del: for_each.simps)
  note w = this
  from w(3) have "keeps s2 s3"
    by (rule for_each_keeps [rotated]) (rule p)
  with w show ?thesis
    by (auto simp: keeps_def dest!: write_string_keeps write_string_of_keeps write_int32_of_keeps)
qed

lemma write_host_exception_keeps: "write_host_exception ext exn s = Inr s' \<Longrightarrow> keeps s s'"
proof -
  assume a: "write_host_exception ext exn s = Inr s'"
  from a obtain s1 s2 s3 s4 s5 s6 filename line fn where
    "write_string (exception_name ext exn) s = Inr s1"
    "write_string (exn_str exn) s1 = Inr s2"
    "for_each (\<lambda>index sa. write_int64 0 sa) [0 :: nat, 1, 2] s2 = Inr s3"
    "write_string filename s3 = Inr s4"
    "write_int32 line s4 = Inr s5"
    "write_int32 (- 1) s5 = Inr s6"
    "write_string fn s6 = Inr s'"
    by (auto simp: write_host_exception_def and_then_Inr split: if_splits
             simp del: for_each.simps)
  note w = this
  from w(3) have "keeps s2 s3"
    by (rule for_each_keeps [rotated]) (rule write_int64_keeps)
  with w show ?thesis
    by (auto simp: keeps_def dest!: write_string_keeps write_int32_keeps)
qed

lemma be_bytes_sync: "be_bytes 4 0x5a5a5a5a = [0x5a, 0x5a, 0x5a, 0x5a]"
  by (simp add: be_bytes_4)

lemma be_bytes_1: "be_bytes (Suc 0) v = [word_of_int v]"
  by simp

lemma pack_llB_Inr:
  "pack_llB 0x5a5a5a5a L t = Inr hdr \<Longrightarrow>
     hdr = [0x5a, 0x5a, 0x5a, 0x5a] @ be_bytes 4 L @ [word_of_int t] \<and> L \<le> 2 ^ 31 - 1"
  by (auto simp: pack_llB_def pack_l_def pack_B_def be_bytes_sync be_bytes_1 split: if_splits
           simp del: be_bytes.simps)

lemma write_flush_Inr:
  assumes "write_flush s = Inr s'" "write_type s = Some ty"
  shows "chan_out s' = chan_out s @ [0x5a, 0x5a, 0x5a, 0x5a]
            @ be_bytes 4 (9 + int (length (concat (write_buffer s))))
            @ [word_of_int (h2d_value ty)] @ concat (write_buffer s)"
  using assms unfolding write_flush_eq
  by (auto split: sum.splits dest!: pack_llB_Inr simp del: be_bytes.simps)

lemma rpc_exception_envelope:
  assumes "rpc_exception ext exn s = Inr s'"
  shows "\<exists>body. chan_out s' = chan_out s @ [0x5a, 0x5a, 0x5a, 0x5a]
            @ be_bytes 4 (9 + int (length body)) @ [8] @ body"
proof -
  from assms obtain s5 where
    w: "(case exn_core exn of
           Some core \<Rightarrow> write_core_exception ext core (write_header RPC_EXCEPTION s)
         | None \<Rightarrow> write_host_exception ext exn (write_header RPC_EXCEPTION s)) = Inr s5"
    and f: "write_flush s5 = Inr s'"
    unfolding rpc_exception_def Let_def and_then_Inr by blast
  from w have "keeps (write_header RPC_EXCEPTION s) s5"
    by (auto split: option.splits dest: write_core_exception_keeps write_host_exception_keeps)
  then have k: "write_type s5 = Some RPC_EXCEPTION" "chan_out s5 = chan_out s"
    by (simp_all add: keeps_def write_header_def)
  from write_flush_Inr [OF f k(1)] k(2) show ?thesis
    by (auto simp del: be_bytes.simps)
qed

lemma write_int32_eq:
  "- (2 ^ 31) \<le> v \<Longrightarrow> v \<le> 2 ^ 31 - 1 \<Longrightarrow>
   write_int32 v s = Inr (s\<lparr>write_buffer := write_buffer s @ [be_bytes 4 v]\<rparr>)"
  by (simp add: write_int32_def pack_l_def del: be_bytes.simps)

lemma write_int64_0: "write_int64 0 s = Inr (s\<lparr>write_buffer := write_buffer s @ [be_bytes 8 0]\<rparr>)"
  by (simp add: write_int64_def pack_q_def del: be_bytes.simps)

lemma write_string_eq:
  "int (length v) + 1 \<le> 2 ^ 31 - 1 \<Longrightarrow>
   write_string v s =
     Inr (s\<lparr>write_buffer := write_buffer s @ [be_bytes 4 (int (length v) + 1), v @ [0]]\<rparr>)"
  by (simp add: write_string_def write_bytes_def write_int32_def pack_l_def add.commute
        del: be_bytes.simps)

lemma and_then_Inr_simp: "and_then (Inr x) f = f x"
  by (simp add: and_then_def)

lemma write_host_exception_eq:
  assumes "length (exn_tb exn) = 1 \<or> length (exn_tb exn) = 2"
      and "last (exn_tb exn) = (filename, line, fn)"
      and "- (2 ^ 31) \<le> line" "line \<le> 2 ^ 31 - 1"
      and "9 + int (length (concat (spec_exception_chunks (exception_name ext exn) (exn_str exn)
                 [0, 0, 0] filename line (- 1) fn))) \<le> 2 ^ 31 - 1"
  shows "write_host_exception ext exn s =
     Inr (s\<lparr>write_buffer := write_buffer s @
            spec_exception_chunks (exception_name ext exn) (exn_str exn) [0, 0, 0] filename line (- 1) fn\<rparr>)"
proof -
  from assms(5) have sz:
    "int (length (exception_name ext exn)) + 1 \<le> 2 ^ 31 - 1"
    "int (length (exn_str exn)) + 1 \<le> 2 ^ 31 - 1"
    "int (length filename) + 1 \<le> 2 ^ 31 - 1"
    "int (length fn) + 1 \<le> 2 ^ 31 - 1"
    by (simp_all add: spec_exception_chunks_def length_be_bytes del: be_bytes.simps)
  have tb: "(if length (exn_tb exn) = 2 then Inr (exn_tb exn ! 1)
        else if length (exn_tb exn) = 1 then Inr (exn_tb exn ! 0)
        else Inl AssertionError) = (Inr (filename, line, fn) :: error + _)"
    using assms(1,2) by (cases "exn_tb exn" rule: rev_cases) (auto simp: nth_append)
  show ?thesis
    unfolding write_host_exception_def tb and_then_Inr_simp prod.case for_each.simps
      write_string_eq [OF sz(1)] write_string_eq [OF sz(2)] write_string_eq [OF sz(3)]
      write_string_eq [OF sz(4)] write_int32_eq [OF assms(3,4)] write_int64_0
      spec_exception_chunks_def
    by (simp add: and_then_Inr_simp write_int32_eq del: be_bytes.simps)
qed

lemma write_flush_ok:
  assumes "write_type s = Some ty"
      and "9 + int (length (concat (write_buffer s))) \<le> 2 ^ 31 - 1"
  shows "write_flush s =
     Inr (s\<lparr>chan_out := chan_out s @ [0x5a, 0x5a, 0x5a, 0x5a] @
            be_bytes 4 (9 + int (length (concat (write_buffer s)))) @
            [word_of_int (h2d_value ty)] @ concat (write_buffer s)\<rparr>)"
  using assms h2d_value_range [of ty]
  by (simp add: write_flush_eq pack_llB_def pack_l_def pack_B_def be_bytes_sync be_bytes_1
        del: be_bytes.simps)

lemma write_int64_eq:
  "- (2 ^ 63) \<le> v \<Longrightarrow> v \<le> 2 ^ 63 - 1 \<Longrightarrow>
   write_int64 v s = Inr (s\<lparr>write_buffer := write_buffer s @ [be_bytes 8 v]\<rparr>)"
  by (simp add: write_int64_def pack_q_def del: be_bytes.simps)

lemma spec_chunks_length:
  "int (length (concat (spec_exception_chunks name msg params filename line column fn))) =
     28 + 8 * int (length params) + int (length name) + int (length msg) + int (length filename)
       + int (length fn)"
proof -
  have "length (concat (map (be_bytes 8) ps)) = 8 * length ps" for ps
    by (induction ps) (simp_all add: length_be_bytes del: be_bytes.simps)
  then show ?thesis
    by (simp add: spec_exception_chunks_def length_be_bytes del: be_bytes.simps)
qed

lemma write_core_exception_eq:
  assumes "int (length (core_name core)) + 1 \<le> 2 ^ 31 - 1"
      and "int (length (core_message core)) + 1 \<le> 2 ^ 31 - 1"
      and "core_param core = p0 # p1 # p2 # ps"
      and "- (2 ^ 63) \<le> p0" "p0 \<le> 2 ^ 63 - 1" "- (2 ^ 63) \<le> p1" "p1 \<le> 2 ^ 63 - 1"
          "- (2 ^ 63) \<le> p2" "p2 \<le> 2 ^ 63 - 1"
      and "core_traceback core \<noteq> []"
  shows "write_core_exception ext core s =
     (if length (last (core_traceback core)) \<noteq> 4 then Inl ValueError
      else
        and_then (write_string_of (last (core_traceback core) ! 0)
           (s\<lparr>write_buffer := write_buffer s @
               [be_bytes 4 (int (length (core_name core)) + 1), core_name core @ [0],
                be_bytes 4 (int (length (core_message core)) + 1), core_message core @ [0],
                be_bytes 8 p0, be_bytes 8 p1, be_bytes 8 p2]\<rparr>)) (\<lambda>s4.
        and_then (write_int32_of ext (last (core_traceback core) ! 1) s4) (\<lambda>s5.
        and_then (write_int32_of ext (last (core_traceback core) ! 2) s5) (\<lambda>s6.
        write_string_of (last (core_traceback core) ! 3) s6))))"
proof -
  have g: "list_get (core_param core) 0 = Inr p0" "list_get (core_param core) 1 = Inr p1"
    "list_get (core_param core) 2 = Inr p2"
    by (simp_all add: list_get_def assms(3))
  show ?thesis
    unfolding write_core_exception_def for_each.simps g and_then_Inr_simp
      write_string_eq [OF assms(1)] write_string_eq [OF assms(2)]
      write_int64_eq [OF assms(4,5)] write_int64_eq [OF assms(6,7)] write_int64_eq [OF assms(8,9)]
    using assms(10) by (simp add: and_then_Inr_simp del: be_bytes.simps)
qed

lemma rpc_exception_core_unpack:
  assumes "exn_core exn = Some core"
      and "int (length (core_name core)) + 1 \<le> 2 ^ 31 - 1"
      and "int (length (core_message core)) + 1 \<le> 2 ^ 31 - 1"
      and "core_param core = p0 # p1 # p2 # ps"
      and "- (2 ^ 63) \<le> p0" "p0 \<le> 2 ^ 63 - 1" "- (2 ^ 63) \<le> p1" "p1 \<le> 2 ^ 63 - 1"
          "- (2 ^ 63) \<le> p2" "p2 \<le> 2 ^ 63 - 1"
      and "core_traceback core \<noteq> []"
      and "length (last (core_traceback core)) \<noteq> 4"
  shows "rpc_exception ext exn s = Inl ValueError"
  unfolding rpc_exception_def Let_def assms(1) option.case
    write_core_exception_eq [OF assms(2-11)]
  using assms(12) by (simp add: and_then_def)

lemma rpc_exception_core_eq:
  assumes "exn_core exn = Some core"
      and "core_param core = p0 # p1 # p2 # ps"
      and "- (2 ^ 63) \<le> p0" "p0 \<le> 2 ^ 63 - 1" "- (2 ^ 63) \<le> p1" "p1 \<le> 2 ^ 63 - 1"
          "- (2 ^ 63) \<le> p2" "p2 \<le> 2 ^ 63 - 1"
      and "core_traceback core \<noteq> []"
      and "last (core_traceback core) = [PyStr filename, lv, cv, PyStr fn]"
      and "index ext lv = Inr line" "- (2 ^ 31) \<le> line" "line \<le> 2 ^ 31 - 1"
      and "index ext cv = Inr column" "- (2 ^ 31) \<le> column" "column \<le> 2 ^ 31 - 1"
      and "9 + int (length (concat (spec_exception_chunks (core_name core) (core_message core)
                 [p0, p1, p2] filename line column fn))) \<le> 2 ^ 31 - 1"
  shows "rpc_exception ext exn s =
     Inr (spec_sent RPC_EXCEPTION
            (spec_exception_chunks (core_name core) (core_message core) [p0, p1, p2]
               filename line column fn) s)"
proof -
  let ?cs = "spec_exception_chunks (core_name core) (core_message core) [p0, p1, p2]
               filename line column fn"
  let ?s1 = "s\<lparr>write_type := Some RPC_EXCEPTION, write_buffer := ?cs\<rparr>"
  from assms(17) have sz:
    "int (length (core_name core)) + 1 \<le> 2 ^ 31 - 1"
    "int (length (core_message core)) + 1 \<le> 2 ^ 31 - 1"
    "int (length filename) + 1 \<le> 2 ^ 31 - 1"
    "int (length fn) + 1 \<le> 2 ^ 31 - 1"
    by (simp_all add: spec_chunks_length)
  have fr: "length (last (core_traceback core)) = 4"
    "last (core_traceback core) ! 0 = PyStr filename" "last (core_traceback core) ! 1 = lv"
    "last (core_traceback core) ! 2 = cv" "last (core_traceback core) ! 3 = PyStr fn"
    by (simp_all add: assms(10))
  have w: "write_core_exception ext core (write_header RPC_EXCEPTION s) = Inr ?s1"
    unfolding write_core_exception_eq [OF sz(1,2) assms(2-9)] fr
      write_string_of_def write_int32_of_def encode_utf8_def pyval.case assms(11) assms(14)
      sum.case and_then_Inr_simp write_string_eq [OF sz(3)] write_string_eq [OF sz(4)]
      write_int32_eq [OF assms(12,13)] write_int32_eq [OF assms(15,16)]
    by (simp add: and_then_Inr_simp write_header_def spec_exception_chunks_def
          del: be_bytes.simps)
  have f: "write_flush ?s1 =
     Inr (?s1\<lparr>chan_out := chan_out ?s1 @ [0x5a, 0x5a, 0x5a, 0x5a] @
            be_bytes 4 (9 + int (length (concat (write_buffer ?s1)))) @
            [word_of_int (h2d_value RPC_EXCEPTION)] @ concat (write_buffer ?s1)\<rparr>)"
    by (rule write_flush_ok) (use assms(17) in simp_all)
  show ?thesis
    unfolding rpc_exception_def Let_def assms(1) option.case w and_then_Inr_simp f spec_sent_def
    by simp
qed

lemma rpc_exception_host_eq:
  assumes "exn_core exn = None"
      and "length (exn_tb exn) = 1 \<or> length (exn_tb exn) = 2"
      and "last (exn_tb exn) = (filename, line, fn)"
      and "- (2 ^ 31) \<le> line" "line \<le> 2 ^ 31 - 1"
      and "9 + int (length (concat (spec_exception_chunks (exception_name ext exn) (exn_str exn)
                 [0, 0, 0] filename line (- 1) fn))) \<le> 2 ^ 31 - 1"
  shows "rpc_exception ext exn s =
     Inr (spec_sent RPC_EXCEPTION
            (spec_exception_chunks (exception_name ext exn) (exn_str exn) [0, 0, 0]
               filename line (- 1) fn) s)"
proof -
  let ?cs = "spec_exception_chunks (exception_name ext exn) (exn_str exn) [0, 0, 0]
               filename line (- 1) fn"
  let ?s1 = "s\<lparr>write_type := Some RPC_EXCEPTION, write_buffer := ?cs\<rparr>"
  have w: "write_host_exception ext exn (write_header RPC_EXCEPTION s) = Inr ?s1"
    unfolding write_host_exception_eq [OF assms(2-6)] by (simp add: write_header_def)
  have f: "write_flush ?s1 =
     Inr (?s1\<lparr>chan_out := chan_out ?s1 @ [0x5a, 0x5a, 0x5a, 0x5a] @
            be_bytes 4 (9 + int (length (concat (write_buffer ?s1)))) @
            [word_of_int (h2d_value RPC_EXCEPTION)] @ concat (write_buffer ?s1)\<rparr>)"
    by (rule write_flush_ok) (use assms(6) in simp_all)
  show ?thesis
    unfolding rpc_exception_def Let_def assms(1) option.case w and_then_Inr_simp f spec_sent_def
    by simp
qed

lemma reading_phase_chan_out:
  assumes "read_int32 s = Inr (service_id, s1)"
      and "receive_rpc_args ext s1 = Inr ((args, kwargs), s2)"
      and "read_bytes s2 = Inr (return_tags, s3)"
  shows "chan_out s3 = chan_out s"
  using read_int32_length [OF assms(1)]
    receive_rpc_args_loop_chan_out [OF assms(2) [unfolded receive_rpc_args_def]]
    read_bytes_length [OF assms(3)]
  by simp

lemma serve_rpc_raise:
  assumes "read_int32 s = Inr (service_id, s1)"
      and "(if service_id = 0 then Inr PySetattr else retrieve_object ext service_id) = Inr service"
      and "receive_rpc_args ext s1 = Inr ((args, kwargs), s2)"
      and "read_bytes s2 = Inr (return_tags, s3)"
      and "call ext service args kwargs = Inl exn"
      and "exn_is_exception exn"
  shows "serve_rpc ext s = rpc_exception ext exn s3"
  unfolding serve_rpc_def assms(1) and_then_Inr_simp prod.case assms(2) assms(3) assms(4) assms(5)
    sum.case
  using assms(6) by simp

lemma serve_rpc_setattr:
  assumes "read_int32 s = Inr (0, s1)"
      and "receive_rpc_args ext s1 = Inr ((args, kwargs), s2)"
      and "read_bytes s2 = Inr (return_tags, s3)"
      and "call ext PySetattr args kwargs = Inr result"
  shows "serve_rpc ext s = Inr s3"
  unfolding serve_rpc_def assms(1) and_then_Inr_simp prod.case if_True refl assms(2) assms(3)
    assms(4) sum.case
  by (simp add: and_then_Inr_simp assms)

lemma serve_rpc_propagates:
  assumes "read_int32 s = Inr (service_id, s1)"
      and "(if service_id = 0 then Inr PySetattr else retrieve_object ext service_id) = Inr service"
      and "receive_rpc_args ext s1 = Inr ((args, kwargs), s2)"
      and "read_bytes s2 = Inr (return_tags, s3)"
      and "call ext service args kwargs = Inl exn"
      and "\<not> exn_is_exception exn"
  shows "serve_rpc ext s = Inl (Propagated exn)"
  unfolding serve_rpc_def assms(1) and_then_Inr_simp prod.case assms(2) assms(3) assms(4) assms(5)
    sum.case
  using assms(6) by simp

text \<open>
  C10. When the service invoked for an \<open>RPC_REQUEST\<close> raises, \<open>_serve_rpc\<close> writes an
  \<open>RPC_EXCEPTION\<close> message even when the service id is 0 (the setattr builtin); the no-reply
  behaviour of service id 0 applies only on success, where no bytes at all are written.

  What the code does once the request has been read, which writes nothing. An exception that
  is not of class \<open>Exception\<close> leaves \<open>_serve_rpc\<close>. An exception of class \<open>Exception\<close> takes
  \<open>_serve_rpc\<close> into the \<open>except\<close> clause whatever the service id is, 0 included, and every
  driver the clause returns has appended exactly one envelope of type 8. For a host exception
  with a traceback of one or two frames that fits the length field the clause returns, and
  the envelope carries the payload of the specification. For an exception that carries a
  core exception whose name, message and three parameters can be written, the clause raises
  \<open>ValueError\<close> before \<open>_write_flush\<close> when the last frame of the traceback has not exactly
  four items, as is the case of every frame that \<open>_serve_exception\<close> appends, which has five;
  on a last frame of four items, text, integer, integer and text, it returns with the
  envelope that carries the record. When the service id is 0 and the service returns, the
  driver comes back as it was after the request was read.
\<close>

theorem serve_rpc_outcomes:
  assumes "read_int32 s = Inr (service_id, s1)"
      and "(if service_id = 0 then Inr PySetattr else retrieve_object ext service_id) = Inr service"
      and "receive_rpc_args ext s1 = Inr ((args, kwargs), s2)"
      and "read_bytes s2 = Inr (return_tags, s3)"
  shows "chan_out s3 = chan_out s \<and>
         (call ext service args kwargs = Inl exn \<and> \<not> exn_is_exception exn \<longrightarrow>
            serve_rpc ext s = Inl (Propagated exn)) \<and>
         (call ext service args kwargs = Inl exn \<and> exn_is_exception exn \<longrightarrow>
            serve_rpc ext s = rpc_exception ext exn s3 \<and>
            (\<forall>s4. serve_rpc ext s = Inr s4 \<longrightarrow>
               (\<exists>body. chan_out s4 = chan_out s @ [0x5a, 0x5a, 0x5a, 0x5a] @
                   be_bytes 4 (9 + int (length body)) @ [8] @ body)) \<and>
            (exn_core exn = None \<and> (length (exn_tb exn) = 1 \<or> length (exn_tb exn) = 2) \<and>
             last (exn_tb exn) = (filename, line, fn) \<and> - (2 ^ 31) \<le> line \<and> line \<le> 2 ^ 31 - 1 \<and>
             9 + int (length (concat (spec_exception_chunks (exception_name ext exn) (exn_str exn)
                   [0, 0, 0] filename line (- 1) fn))) \<le> 2 ^ 31 - 1 \<longrightarrow>
             serve_rpc ext s =
               Inr (spec_sent RPC_EXCEPTION
                      (spec_exception_chunks (exception_name ext exn) (exn_str exn) [0, 0, 0]
                         filename line (- 1) fn) s3)) \<and>
            (exn_core exn = Some core \<and>
             int (length (core_name core)) + 1 \<le> 2 ^ 31 - 1 \<and>
             int (length (core_message core)) + 1 \<le> 2 ^ 31 - 1 \<and>
             core_param core = p0 # p1 # p2 # ps \<and>
             - (2 ^ 63) \<le> p0 \<and> p0 \<le> 2 ^ 63 - 1 \<and> - (2 ^ 63) \<le> p1 \<and> p1 \<le> 2 ^ 63 - 1 \<and>
             - (2 ^ 63) \<le> p2 \<and> p2 \<le> 2 ^ 63 - 1 \<and>
             core_traceback core \<noteq> [] \<and> length (last (core_traceback core)) \<noteq> 4 \<longrightarrow>
             serve_rpc ext s = Inl ValueError) \<and>
            (exn_core exn = Some core \<and>
             core_param core = p0 # p1 # p2 # ps \<and>
             - (2 ^ 63) \<le> p0 \<and> p0 \<le> 2 ^ 63 - 1 \<and> - (2 ^ 63) \<le> p1 \<and> p1 \<le> 2 ^ 63 - 1 \<and>
             - (2 ^ 63) \<le> p2 \<and> p2 \<le> 2 ^ 63 - 1 \<and>
             core_traceback core \<noteq> [] \<and>
             last (core_traceback core) = [PyStr filename, lv, cv, PyStr fn] \<and>
             index ext lv = Inr line \<and> - (2 ^ 31) \<le> line \<and> line \<le> 2 ^ 31 - 1 \<and>
             index ext cv = Inr column \<and> - (2 ^ 31) \<le> column \<and> column \<le> 2 ^ 31 - 1 \<and>
             9 + int (length (concat (spec_exception_chunks (core_name core) (core_message core)
                   [p0, p1, p2] filename line column fn))) \<le> 2 ^ 31 - 1 \<longrightarrow>
             serve_rpc ext s =
               Inr (spec_sent RPC_EXCEPTION
                      (spec_exception_chunks (core_name core) (core_message core) [p0, p1, p2]
                         filename line column fn) s3))) \<and>
         (service_id = 0 \<and> call ext service args kwargs = Inr result \<longrightarrow>
            serve_rpc ext s = Inr s3)"
proof (intro conjI impI allI)
  show out: "chan_out s3 = chan_out s"
    by (rule reading_phase_chan_out [OF assms(1,3,4)])
  {
    assume a: "call ext service args kwargs = Inl exn \<and> \<not> exn_is_exception exn"
    show "serve_rpc ext s = Inl (Propagated exn)"
      using a by (intro serve_rpc_propagates [OF assms]) simp_all
  }
  {
    assume a: "call ext service args kwargs = Inl exn \<and> exn_is_exception exn"
    show e: "serve_rpc ext s = rpc_exception ext exn s3"
      using a by (intro serve_rpc_raise [OF assms]) simp_all
    {
      fix s4 assume "serve_rpc ext s = Inr s4"
      with e have "rpc_exception ext exn s3 = Inr s4" by simp
      from rpc_exception_envelope [OF this] out
      show "\<exists>body. chan_out s4 = chan_out s @ [0x5a, 0x5a, 0x5a, 0x5a] @
                   be_bytes 4 (9 + int (length body)) @ [8] @ body"
        by simp
    }
    {
      assume h: "exn_core exn = None \<and> (length (exn_tb exn) = 1 \<or> length (exn_tb exn) = 2) \<and>
             last (exn_tb exn) = (filename, line, fn) \<and> - (2 ^ 31) \<le> line \<and> line \<le> 2 ^ 31 - 1 \<and>
             9 + int (length (concat (spec_exception_chunks (exception_name ext exn) (exn_str exn)
                   [0, 0, 0] filename line (- 1) fn))) \<le> 2 ^ 31 - 1"
      have "rpc_exception ext exn s3 =
               Inr (spec_sent RPC_EXCEPTION
                      (spec_exception_chunks (exception_name ext exn) (exn_str exn) [0, 0, 0]
                         filename line (- 1) fn) s3)"
        by (rule rpc_exception_host_eq) (use h in simp_all)
      with e show "serve_rpc ext s =
               Inr (spec_sent RPC_EXCEPTION
                      (spec_exception_chunks (exception_name ext exn) (exn_str exn) [0, 0, 0]
                         filename line (- 1) fn) s3)"
        by simp
    }
    {
      assume h: "exn_core exn = Some core \<and>
             int (length (core_name core)) + 1 \<le> 2 ^ 31 - 1 \<and>
             int (length (core_message core)) + 1 \<le> 2 ^ 31 - 1 \<and>
             core_param core = p0 # p1 # p2 # ps \<and>
             - (2 ^ 63) \<le> p0 \<and> p0 \<le> 2 ^ 63 - 1 \<and> - (2 ^ 63) \<le> p1 \<and> p1 \<le> 2 ^ 63 - 1 \<and>
             - (2 ^ 63) \<le> p2 \<and> p2 \<le> 2 ^ 63 - 1 \<and>
             core_traceback core \<noteq> [] \<and> length (last (core_traceback core)) \<noteq> 4"
      have "rpc_exception ext exn s3 = Inl ValueError"
        by (rule rpc_exception_core_unpack [where core = core and ?p0.0 = p0 and ?p1.0 = p1
              and ?p2.0 = p2 and ps = ps]) (use h in simp_all)
      with e show "serve_rpc ext s = Inl ValueError"
        by simp
    }
    {
      assume h: "exn_core exn = Some core \<and>
             core_param core = p0 # p1 # p2 # ps \<and>
             - (2 ^ 63) \<le> p0 \<and> p0 \<le> 2 ^ 63 - 1 \<and> - (2 ^ 63) \<le> p1 \<and> p1 \<le> 2 ^ 63 - 1 \<and>
             - (2 ^ 63) \<le> p2 \<and> p2 \<le> 2 ^ 63 - 1 \<and>
             core_traceback core \<noteq> [] \<and>
             last (core_traceback core) = [PyStr filename, lv, cv, PyStr fn] \<and>
             index ext lv = Inr line \<and> - (2 ^ 31) \<le> line \<and> line \<le> 2 ^ 31 - 1 \<and>
             index ext cv = Inr column \<and> - (2 ^ 31) \<le> column \<and> column \<le> 2 ^ 31 - 1 \<and>
             9 + int (length (concat (spec_exception_chunks (core_name core) (core_message core)
                   [p0, p1, p2] filename line column fn))) \<le> 2 ^ 31 - 1"
      have "rpc_exception ext exn s3 =
               Inr (spec_sent RPC_EXCEPTION
                      (spec_exception_chunks (core_name core) (core_message core) [p0, p1, p2]
                         filename line column fn) s3)"
        by (rule rpc_exception_core_eq [where ps = ps and lv = lv and cv = cv])
           (use h in simp_all)
      with e show "serve_rpc ext s =
               Inr (spec_sent RPC_EXCEPTION
                      (spec_exception_chunks (core_name core) (core_message core) [p0, p1, p2]
                         filename line column fn) s3)"
        by simp
    }
  }
  {
    assume b: "service_id = 0 \<and> call ext service args kwargs = Inr result"
    with assms(2) have sv: "service = PySetattr" by simp
    from b have z: "service_id = 0" and c: "call ext PySetattr args kwargs = Inr result"
      unfolding sv by simp_all
    show "serve_rpc ext s = Inr s3"
      by (rule serve_rpc_setattr [OF assms(1) [unfolded z] assms(3,4) c])
  }
qed

theorem serve_rpc_outcomes_witness:
  "serve_rpc (test_externals [] [PyNone, PyObject 7]
       (Inl ((plain_exn (map of_char ''KeyboardInterrupt'') [])\<lparr>exn_is_exception := False\<rparr>)))
      call_request
     = Inl (Propagated ((plain_exn (map of_char ''KeyboardInterrupt'') [])\<lparr>exn_is_exception := False\<rparr>))
   \<and> serve_rpc (test_externals [] [PyNone, PyObject 7]
       (Inl (kernel_exn [PyStr (map of_char ''kernel.py''), PyInt 3, PyInt 4,
                         PyStr (map of_char ''run''), PyNone])))
      call_request
     = Inl ValueError
   \<and> serve_rpc (test_externals [] [PyNone, PyObject 7]
       (Inl (kernel_exn [PyStr (map of_char ''kernel.py''), PyInt 3, PyInt 4,
                         PyStr (map of_char ''run'')])))
      call_request
     = Inr ((init [])\<lparr>read_length := 0, write_type := Some RPC_EXCEPTION,
              write_buffer :=
                [[0, 0, 0, 14], map of_char ''RTIOUnderflow'' @ [0],
                 [0, 0, 0, 5], map of_char ''late'' @ [0],
                 [0, 0, 0, 0, 0, 0, 0, 1], [0, 0, 0, 0, 0, 0, 0, 2], [0, 0, 0, 0, 0, 0, 0, 3],
                 [0, 0, 0, 10], map of_char ''kernel.py'' @ [0],
                 [0, 0, 0, 3], [0, 0, 0, 4],
                 [0, 0, 0, 4], map of_char ''run'' @ [0]],
              chan_out :=
                [0x5a, 0x5a, 0x5a, 0x5a, 0, 0, 0, 90, 8] @
                [0, 0, 0, 14] @ map of_char ''RTIOUnderflow'' @ [0] @
                [0, 0, 0, 5] @ map of_char ''late'' @ [0] @
                [0, 0, 0, 0, 0, 0, 0, 1] @ [0, 0, 0, 0, 0, 0, 0, 2] @ [0, 0, 0, 0, 0, 0, 0, 3] @
                [0, 0, 0, 10] @ map of_char ''kernel.py'' @ [0] @
                [0, 0, 0, 3] @ [0, 0, 0, 4] @
                [0, 0, 0, 4] @ map of_char ''run'' @ [0]\<rparr>)
   \<and> serve_rpc (test_externals [] [PyNone, PyObject 7] (Inl setattr_exn)) setattr_request
     = Inr ((init [])\<lparr>read_length := 0, write_type := Some RPC_EXCEPTION,
              write_buffer :=
                [[0, 0, 0, 13], map of_char ''0:ValueError'' @ [0],
                 [0, 0, 0, 4], map of_char ''bad'' @ [0],
                 [0, 0, 0, 0, 0, 0, 0, 0], [0, 0, 0, 0, 0, 0, 0, 0], [0, 0, 0, 0, 0, 0, 0, 0],
                 [0, 0, 0, 16], map of_char ''comm_generic.py'' @ [0],
                 [0, 0, 1, 0xbe], [0xff, 0xff, 0xff, 0xff],
                 [0, 0, 0, 9], map of_char ''<lambda>'' @ [0]],
              chan_out :=
                [0x5a, 0x5a, 0x5a, 0x5a, 0, 0, 0, 99, 8] @
                [0, 0, 0, 13] @ map of_char ''0:ValueError'' @ [0] @
                [0, 0, 0, 4] @ map of_char ''bad'' @ [0] @
                [0, 0, 0, 0, 0, 0, 0, 0] @ [0, 0, 0, 0, 0, 0, 0, 0] @ [0, 0, 0, 0, 0, 0, 0, 0] @
                [0, 0, 0, 16] @ map of_char ''comm_generic.py'' @ [0] @
                [0, 0, 1, 0xbe] @ [0xff, 0xff, 0xff, 0xff] @
                [0, 0, 0, 9] @ map of_char ''<lambda>'' @ [0]\<rparr>)
   \<and> serve_rpc (test_externals [] [PyNone, PyObject 7] (Inr PyNone)) setattr_request
     = Inr ((init [])\<lparr>read_length := 0\<rparr>)
   \<and> chan_out ((init [])\<lparr>read_length := 0\<rparr>) = chan_out setattr_request"
proof -
  let ?int = "(plain_exn (map of_char ''KeyboardInterrupt'') [])\<lparr>exn_is_exception := False\<rparr>"
  let ?f5 = "[PyStr (map of_char ''kernel.py''), PyInt 3, PyInt 4, PyStr (map of_char ''run''), PyNone]"
  let ?f4 = "[PyStr (map of_char ''kernel.py''), PyInt 3, PyInt 4, PyStr (map of_char ''run'')]"
  let ?core5 = "\<lparr> core_name = map of_char ''RTIOUnderflow'', core_message = map of_char ''late'',
                  core_param = [1, 2, 3], core_traceback = [?f5] \<rparr>"
  let ?core4 = "\<lparr> core_name = map of_char ''RTIOUnderflow'', core_message = map of_char ''late'',
                  core_param = [1, 2, 3], core_traceback = [?f4] \<rparr>"
  let ?E = "test_externals [] [PyNone, PyObject 7]"
  let ?S1 = "(init [0, 0, 0, 0, 1, 0x6e])\<lparr>read_length := 6\<rparr>"
  let ?S2 = "(init [0, 0, 0, 1, 0x6e])\<lparr>read_length := 5\<rparr>"
  let ?S3 = "(init [])\<lparr>read_length := 0\<rparr>"
  let ?T1 = "(init [0x4f, 0, 0, 0, 1, 0x73, 0, 0, 0, 2, 0x78, 0, 0x69, 0, 0, 0, 5, 0,
                    0, 0, 0, 1, 0x6e])\<lparr>read_length := 23\<rparr>"
  let ?T2 = "(init [0, 0, 0, 0, 1, 0x6e])\<lparr>read_length := 6\<rparr>"
  let ?args = "[PyObject 7, PyStr [0x78], PyWrapInt 5 32]"
  have r1: "read_int32 call_request = Inr (1, ?S1)"
    by code_simp
  have r2: "(if (1::int) = 0 then Inr PySetattr else retrieve_object (?E out) 1) = Inr (PyObject 7)"
    for out
    by (simp add: test_externals_def)
  have v: "receive_rpc_value ext ?S1 = Inr (PySentinel, ?S2)" for ext
    by (simp add: receive_rpc_value.simps read_int8_def read_chunk_def chan_read_def init_def
          unpack_B_def be_uint_def chr_is_def)
  have r3: "receive_rpc_args ext ?S1 = Inr (([], Map.empty), ?S2)" for ext
    by (simp add: receive_rpc_args_def receive_rpc_args_loop_step [OF v])
  have r4: "read_bytes ?S2 = Inr ([0x6e], ?S3)"
    by code_simp
  have q1: "read_int32 setattr_request = Inr (0, ?T1)"
    by code_simp
  have q2: "(if (0::int) = 0 then Inr PySetattr else retrieve_object ext 0) = Inr PySetattr"
    for ext :: externals
    by simp
  have a1: "receive_rpc_values (?E (Inl setattr_exn)) 3 ?T1 = Inr (?args, ?T2)"
    by code_simp
  have a2: "receive_rpc_values (?E (Inr PyNone)) 3 ?T1 = Inr (?args, ?T2)"
    by code_simp
  have ns: "PySentinel \<notin> set ?args"
    by simp
  have q3: "receive_rpc_args (?E (Inl setattr_exn)) ?T1 = Inr ((?args, Map.empty), ?S2)"
    using receive_rpc_args_loop_collates [OF a1 ns v, of "[]" Map.empty]
    by (simp add: receive_rpc_args_def positional_def last_wins_def)
  have q3': "receive_rpc_args (?E (Inr PyNone)) ?T1 = Inr ((?args, Map.empty), ?S2)"
    using receive_rpc_args_loop_collates [OF a2 ns v, of "[]" Map.empty]
    by (simp add: receive_rpc_args_def positional_def last_wins_def)
  have c: "call (?E out) service args kwargs = out" for out service args kwargs
    by (simp add: test_externals_def)
  have i: "index (?E out) (PyInt n) = Inr n" for out n
    by (simp add: test_externals_def)
  have k: "exn_is_exception (kernel_exn fr)" "exn_core (kernel_exn ?f5) = Some ?core5"
    "exn_core (kernel_exn ?f4) = Some ?core4" "exn_is_exception setattr_exn"
    "exn_core setattr_exn = None" "\<not> exn_is_exception ?int" for fr
    by (simp_all add: kernel_exn_def setattr_exn_def plain_exn_def)
  have tb: "length (exn_tb setattr_exn) = 2"
    "last (exn_tb setattr_exn) = (map of_char ''comm_generic.py'', 446, map of_char ''<lambda>'')"
    by (simp_all add: setattr_exn_def plain_exn_def)
  have sz: "9 + int (length (concat (spec_exception_chunks
        (exception_name (?E (Inl setattr_exn)) setattr_exn) (exn_str setattr_exn) [0, 0, 0]
        (map of_char ''comm_generic.py'') 446 (- 1) (map of_char ''<lambda>'')))) \<le> 2 ^ 31 - 1"
    "9 + int (length (concat (spec_exception_chunks (core_name ?core4) (core_message ?core4)
        [1, 2, 3] (map of_char ''kernel.py'') 3 4 (map of_char ''run'')))) \<le> 2 ^ 31 - 1"
    by (simp_all add: spec_chunks_length exception_name_def setattr_exn_def plain_exn_def)
  have e1: "serve_rpc (?E (Inl ?int)) call_request = Inl (Propagated ?int)"
    using serve_rpc_outcomes [where ext = "?E (Inl ?int)" and exn = ?int, OF r1 r2 r3 r4,
        THEN conjunct2, THEN conjunct1] c k(6)
    by simp
  have e2: "serve_rpc (?E (Inl (kernel_exn ?f5))) call_request = Inl ValueError"
    using serve_rpc_outcomes [where ext = "?E (Inl (kernel_exn ?f5))" and exn = "kernel_exn ?f5"
        and core = ?core5 and ?p0.0 = 1 and ?p1.0 = 2 and ?p2.0 = 3 and ps = "[]",
        OF r1 r2 r3 r4, THEN conjunct2, THEN conjunct2, THEN conjunct1, THEN mp,
        OF conjI [OF c k(1)], THEN conjunct2, THEN conjunct2, THEN conjunct2, THEN conjunct1]
      k(2)
    by simp
  have e3: "serve_rpc (?E (Inl (kernel_exn ?f4))) call_request =
      Inr (spec_sent RPC_EXCEPTION (spec_exception_chunks (core_name ?core4) (core_message ?core4)
             [1, 2, 3] (map of_char ''kernel.py'') 3 4 (map of_char ''run'')) ?S3)"
    using serve_rpc_outcomes [where ext = "?E (Inl (kernel_exn ?f4))" and exn = "kernel_exn ?f4"
        and core = ?core4 and ?p0.0 = 1 and ?p1.0 = 2 and ?p2.0 = 3 and ps = "[]"
        and filename = "map of_char ''kernel.py''" and lv = "PyInt 3" and cv = "PyInt 4"
        and fn = "map of_char ''run''" and line = 3 and column = 4, OF r1 r2 r3 r4,
        THEN conjunct2, THEN conjunct2, THEN conjunct1, THEN mp,
        OF conjI [OF c k(1)], THEN conjunct2, THEN conjunct2, THEN conjunct2, THEN conjunct2]
      k(3) i sz(2)
    by simp
  have e4: "serve_rpc (?E (Inl setattr_exn)) setattr_request =
      Inr (spec_sent RPC_EXCEPTION (spec_exception_chunks
             (exception_name (?E (Inl setattr_exn)) setattr_exn) (exn_str setattr_exn) [0, 0, 0]
             (map of_char ''comm_generic.py'') 446 (- 1) (map of_char ''<lambda>'')) ?S3)"
    using serve_rpc_outcomes [where ext = "?E (Inl setattr_exn)" and exn = setattr_exn
        and filename = "map of_char ''comm_generic.py''" and line = 446
        and fn = "map of_char ''<lambda>''", OF q1 q2 q3 r4,
        THEN conjunct2, THEN conjunct2, THEN conjunct1, THEN mp,
        OF conjI [OF c k(4)], THEN conjunct2, THEN conjunct2, THEN conjunct1]
      k(5) tb sz(1)
    by simp
  have e5: "serve_rpc (?E (Inr PyNone)) setattr_request = Inr ?S3"
    using serve_rpc_outcomes [where ext = "?E (Inr PyNone)" and result = PyNone,
        OF q1 q2 q3' r4, THEN conjunct2, THEN conjunct2, THEN conjunct2] c
    by simp
  have e6: "chan_out ?S3 = chan_out setattr_request"
    by code_simp
  show ?thesis
    unfolding e1 e2 e3 e4 e5 e6 by code_simp
qed

end
